theory Spec2Isabelle
  imports Complex_Main "HOL-Library.Word"
begin

section \<open>Numbers, array reads and outcomes\<close>

text \<open>
  The audio engine computes on JavaScript numbers. The model takes them as mathematical
  reals: every comparison, floor and rounding below is the one the source writes, applied
  to the exact value. Sample counts and array indices are natural numbers. A computation
  that the source can leave by an exception returns \<open>error + 'a\<close>; a loop that the source
  can run for ever is a \<^theory_text>\<open>partial_function\<close> into \<open>option\<close>, where \<open>None\<close> means that the
  call never returns. Status and progress callbacks carry no data back and are left out,
  as is the pause before the accurate tempo pass. The mixdown is the exception to the
  reals: its times are rounded as doubles, see below.
\<close>

datatype error = RangeError | NotSupportedError

text \<open>\<open>Math.round\<close>: the nearest integer, a tie going up.\<close>

definition js_round :: "real \<Rightarrow> real" where
  "js_round x = of_int \<lfloor>x + 1 / 2\<rfloor>"

text \<open>The idiom \<open>Math.round(x * 10) / 10\<close>.\<close>

definition round1 :: "real \<Rightarrow> real" where
  "round1 x = js_round (x * 10) / 10"

text \<open>An array read \<open>xs[i]\<close>: \<open>None\<close> stands for \<open>undefined\<close> outside the array.\<close>

definition js_nth :: "'a list \<Rightarrow> nat \<Rightarrow> 'a option" where
  "js_nth xs i = (if i < length xs then Some (xs ! i) else None)"

text \<open>\<open>Array.from(new Set(xs))\<close>: the first occurrence of every value, in order.\<close>

definition dedupe :: "'a list \<Rightarrow> 'a list" where
  "dedupe xs = rev (remdups (rev xs))"

section \<open>Tempo aggregation (\<open>analyzeBpm\<close>, lines 107 to 151)\<close>

datatype DetectionMode = Fast | Accurate

datatype confidence_grade = High | Medium | Low

text \<open>
  The fields \<open>raw\<close> and \<open>corrected\<close> are numbers that the source derives from an array
  read; \<open>None\<close> is the \<open>NaN\<close> that an \<open>undefined\<close> read would give.
\<close>

record bpm_info =
  raw :: "real option"
  corrected :: "real option"
  candidates :: "real list"
  stdDev :: real
  confidence :: confidence_grade
  algorithmsUsed :: "string list"
  allPasses :: "real list"
  filteredPasses :: "real list"
  modeUsed :: DetectionMode

definition fallbackBpm :: "DetectionMode \<Rightarrow> bpm_info" where
  "fallbackBpm mode =
     \<lparr>raw = Some 120, corrected = Some 120, candidates = [], stdDev = 0, confidence = Low,
      algorithmsUsed = [''Fallback''], allPasses = [], filteredPasses = [], modeUsed = mode\<rparr>"

text \<open>Lines 115 to 118, on the sorted list: the quartile reads and the Tukey fence.\<close>

definition tukeyFilter :: "real list \<Rightarrow> real list" where
  "tukeyFilter rawResults =
     (case (js_nth rawResults (nat \<lfloor>real (length rawResults) * 0.25\<rfloor>),
            js_nth rawResults (nat \<lfloor>real (length rawResults) * 0.75\<rfloor>)) of
        (Some q1, Some q3) \<Rightarrow>
          (let iqr = q3 - q1
           in if iqr = 0 then rawResults
              else filter (\<lambda>t. t \<ge> q1 - 1.5 * iqr \<and> t \<le> q3 + 1.5 * iqr) rawResults)
      | _ \<Rightarrow> [])"

text \<open>Line 120.\<close>

definition medianOf :: "real list \<Rightarrow> real option" where
  "medianOf passes = js_nth passes (nat \<lfloor>real (length passes) / 2\<rfloor>)"

text \<open>Lines 129 and 130, one loop each.\<close>

partial_function (option) halveLoop :: "real \<Rightarrow> real option" where
  "halveLoop c = (if c > 200 then halveLoop (c / 2) else Some c)"

partial_function (option) doubleLoop :: "real \<Rightarrow> real option" where
  "doubleLoop c = (if c < 60 then doubleLoop (c * 2) else Some c)"

definition octaveCorrect :: "real \<Rightarrow> real option" where
  "octaveCorrect medianBpm = Option.bind (halveLoop medianBpm) doubleLoop"

text \<open>Lines 135 to 139 and the set of line 144.\<close>

definition alternateCandidates :: "real \<Rightarrow> real list" where
  "alternateCandidates finalCorrected =
     dedupe (filter (\<lambda>c. c \<ge> 40 \<and> c \<le> 220 \<and> \<bar>c - finalCorrected\<bar> > 2)
       [round1 (finalCorrected / 2), round1 (finalCorrected * 1.5), round1 (finalCorrected * 2)])"

text \<open>
  Everything \<open>analyzeBpm\<close> does once the raw results are collected. With an \<open>undefined\<close>
  median both octave loops fall through at once, the two rounded values are \<open>NaN\<close> and no
  candidate passes the filter.
\<close>

definition aggregateBpm :: "real list \<Rightarrow> DetectionMode \<Rightarrow> string list \<Rightarrow> bpm_info option" where
  "aggregateBpm collected mode algorithms =
     (if length collected = 0 then Some (fallbackBpm mode)
      else
        let rawResults = sort collected;
            filtered = tukeyFilter rawResults;
            medianBpm = medianOf filtered;
            count = (if length filtered = 0 then 1 else real (length filtered));
            mean = foldl (\<lambda>a b. a + b) 0 filtered / count;
            variance = foldl (\<lambda>a b. a + (b - mean) ^ 2) 0 filtered / count;
            sd = sqrt variance;
            conf0 = (if mode = Accurate then High else Medium);
            conf = (if sd \<ge> 10 \<or> (mode = Fast \<and> length filtered < 3) then Low else conf0);
            finish = (\<lambda>finalRaw finalCorrected cands.
              \<lparr>raw = finalRaw, corrected = finalCorrected, candidates = cands,
               stdDev = js_round (sd * 100) / 100, confidence = conf,
               algorithmsUsed = algorithms, allPasses = rawResults,
               filteredPasses = filtered, modeUsed = mode\<rparr>)
        in case medianBpm of
             None \<Rightarrow> Some (finish None None [])
           | Some m \<Rightarrow>
               (case octaveCorrect m of
                  None \<Rightarrow> None
                | Some c \<Rightarrow>
                    Some (finish (Some (round1 m)) (Some (round1 c))
                            (alternateCandidates (round1 c)))))"

section \<open>Audio buffers\<close>

text \<open>
  An \<open>AudioBuffer\<close>: planar samples and a sample rate. Its \<open>length\<close> is the number of
  frames, which is the length of every channel; the model reads it off channel 0. Every
  \<open>AudioBuffer\<close> has at least one channel, so \<open>getChannelData(0)\<close> does not fail; on a
  record without channels the model reads no samples. The sample rate of an \<open>AudioBuffer\<close>
  is positive, and \<open>duration\<close> is meant for such buffers.
\<close>

record audio_buffer =
  sampleRate :: nat
  channels :: "real list list"

definition numberOfChannels :: "audio_buffer \<Rightarrow> nat" where
  "numberOfChannels b = length (channels b)"

definition getChannelData :: "audio_buffer \<Rightarrow> nat \<Rightarrow> real list" where
  "getChannelData b i = (if i < length (channels b) then channels b ! i else [])"

definition buf_length :: "audio_buffer \<Rightarrow> nat" where
  "buf_length b = length (getChannelData b 0)"

definition duration :: "audio_buffer \<Rightarrow> real" where
  "duration b = real (buf_length b) / real (sampleRate b)"

section \<open>Tempo estimation (\<open>detectBpmByPeakClustering\<close>, \<open>detectBpmByAutocorrelation\<close>)\<close>

text \<open>
  The inner loop of the peak pass (lines 195 to 199) visits \<open>j = 0, step, 2 * step, ...\<close>
  while \<open>j < hopSize\<close> and \<open>i + j < data.length\<close>, and keeps the largest absolute value
  above its start value 0.
\<close>

definition blockMax :: "real list \<Rightarrow> nat \<Rightarrow> nat \<Rightarrow> nat \<Rightarrow> real" where
  "blockMax data hopSize step i =
     foldl (\<lambda>mx j. if \<bar>data ! (i + j)\<bar> > mx then \<bar>data ! (i + j)\<bar> else mx) 0
       (filter (\<lambda>j. step dvd j) [0..<min hopSize (length data - i)])"

text \<open>The outer loop (lines 194 to 201). With \<open>hopSize = 0\<close> it never leaves a non-empty signal.\<close>

partial_function (option) peakLoop ::
  "real list \<Rightarrow> nat \<Rightarrow> nat \<Rightarrow> nat \<Rightarrow> nat \<Rightarrow> real list \<Rightarrow> real list option" where
  "peakLoop data rate hopSize step i peaks =
     (if i < length data
      then peakLoop data rate hopSize step (i + hopSize)
             (if blockMax data hopSize step i > 0.15 then peaks @ [real i / real rate] else peaks)
      else Some peaks)"

definition recordedPeaks :: "real list \<Rightarrow> nat \<Rightarrow> real \<Rightarrow> real list option" where
  "recordedPeaks data rate hopSec =
     peakLoop data rate (nat \<lfloor>real rate * hopSec\<rfloor>) (max 1 (nat \<lfloor>real (length data) / 3000\<rfloor>)) 0 []"

text \<open>Lines 203 to 207: the consecutive differences strictly between 0.2 and 2.0 seconds.\<close>

definition keptDiffs :: "real list \<Rightarrow> real list" where
  "keptDiffs peaks =
     filter (\<lambda>d. d > 0.2 \<and> d < 2.0) (map (\<lambda>i. peaks ! i - peaks ! (i - 1)) [1..<length peaks])"

text \<open>
  Line 209 sorts with the default comparison, which orders the numbers by their decimal
  strings. Every kept difference lies strictly between 0.2 and 2.0, where that string is one
  digit, a point and the fraction digits with no exponent, so the order of the strings is
  the order of the numbers; the model sorts numerically.
\<close>

definition detectBpmByPeakClustering :: "real list \<Rightarrow> nat \<Rightarrow> real \<Rightarrow> real option" where
  "detectBpmByPeakClustering data rate hopSec =
     (case recordedPeaks data rate hopSec of
        None \<Rightarrow> None
      | Some peaks \<Rightarrow>
          if length peaks < 5 then Some 0
          else let diffs = keptDiffs peaks
               in if length diffs = 0 then Some 0
                  else Some (60 / (sort diffs ! (nat \<lfloor>real (length diffs) / 2\<rfloor>))))"

text \<open>
  The autocorrelation estimate. With a sample rate below 100 the block size \<open>ratio\<close> is 0,
  the envelope length is not finite and allocating the envelope raises \<open>RangeError\<close>.
\<close>

definition onsetEnvelope :: "real list \<Rightarrow> nat \<Rightarrow> real list" where
  "onsetEnvelope data ratio =
     (let envLength = length data div ratio;
          env = map (\<lambda>i. if i < envLength - 1
                          then foldl (\<lambda>energy j. energy + data ! (i * ratio + j) * data ! (i * ratio + j))
                                 0 [0..<ratio]
                          else 0) [0..<envLength]
      in foldl (\<lambda>e i. e[i := max 0 (e ! i - e ! (i - 1))]) env (rev [1..<length env]))"

definition bestLagOf :: "real list \<Rightarrow> nat" where
  "bestLagOf env =
     snd (foldl (\<lambda>(maxAuto, bestLag) lag.
                   let s = foldl (\<lambda>acc i. acc + env ! i * env ! (i + lag)) 0 [0..<length env - lag]
                   in if s > maxAuto then (s, lag) else (maxAuto, bestLag))
            (0, 60) [30..<101])"

definition detectBpmByAutocorrelation :: "audio_buffer \<Rightarrow> error + real" where
  "detectBpmByAutocorrelation buffer =
     (let data = getChannelData buffer 0;
          targetFs = 100;
          ratio = sampleRate buffer div targetFs
      in if ratio = 0 \<and> length data > 0 then Inl RangeError
         else Inr ((60 * real targetFs) / real (bestLagOf (onsetEnvelope data ratio))))"

text \<open>Lines 99 to 103: one pass per hop size, each plausible tempo kept to one decimal.\<close>

definition hopSizes :: "real list" where
  "hopSizes = [0.03, 0.05, 0.08, 0.1, 0.12, 0.15]"

fun fastPasses :: "real list \<Rightarrow> nat \<Rightarrow> real list \<Rightarrow> real list \<Rightarrow> real list option" where
  "fastPasses data rate [] rawResults = Some rawResults"
| "fastPasses data rate (hop # hops) rawResults =
     (case detectBpmByPeakClustering data rate hop of
        None \<Rightarrow> None
      | Some tempo \<Rightarrow>
          fastPasses data rate hops
            (if tempo > 40 \<and> tempo < 300 then rawResults @ [round1 tempo] else rawResults))"

text \<open>
  \<open>analyzeBpm\<close>: \<open>None\<close> when a loop never ends, \<open>Inl\<close> when the accurate pass raises.
\<close>

definition analyzeBpm :: "audio_buffer \<Rightarrow> DetectionMode \<Rightarrow> (error + bpm_info) option" where
  "analyzeBpm buffer mode =
     (case mode of
        Accurate \<Rightarrow>
          (case detectBpmByAutocorrelation buffer of
             Inl e \<Rightarrow> Some (Inl e)
           | Inr bpm \<Rightarrow>
               map_option Inr
                 (aggregateBpm (if bpm > 40 \<and> bpm < 250 then [bpm] else []) mode
                    [''Full-Track Autocorrelation'']))
      | Fast \<Rightarrow>
          (case fastPasses (getChannelData buffer 0) (sampleRate buffer) hopSizes [] of
             None \<Rightarrow> None
           | Some rawResults \<Rightarrow>
               map_option Inr (aggregateBpm rawResults mode [''Peak Clustering''])))"

section \<open>Loop boundaries (\<open>detectBoundaries\<close>)\<close>

record LoopBoundaries =
  introEnd :: real
  outroStart :: real
  detected :: bool

text \<open>
  Lines 218 to 223: one RMS value per chunk. With \<open>chunkSize = 0\<close> the loop never leaves a
  non-empty signal.
\<close>

partial_function (option) rmsLoop ::
  "real list \<Rightarrow> nat \<Rightarrow> nat \<Rightarrow> real list \<Rightarrow> real list option" where
  "rmsLoop data chunkSize i rmsValues =
     (if i < length data
      then (let stop = min (i + chunkSize) (length data);
                total = foldl (\<lambda>acc j. acc + data ! j * data ! j) 0 [i..<stop]
            in rmsLoop data chunkSize (i + chunkSize)
                 (rmsValues @ [sqrt (total / real (stop - i))]))
      else Some rmsValues)"

text \<open>
  Lines 227 and 228: the first and the last chunk above the threshold, \<open>-1\<close> when there is
  none. An \<open>undefined\<close> threshold (no chunk at all) compares false with everything.
\<close>

definition firstAbove :: "real list \<Rightarrow> real option \<Rightarrow> int" where
  "firstAbove rmsValues threshold =
     (case threshold of
        None \<Rightarrow> - 1
      | Some t \<Rightarrow>
          (case filter (\<lambda>i. rmsValues ! i > t) [0..<length rmsValues] of
             [] \<Rightarrow> - 1 | i # _ \<Rightarrow> int i))"

definition lastAbove :: "real list \<Rightarrow> real option \<Rightarrow> int" where
  "lastAbove rmsValues threshold =
     (case threshold of
        None \<Rightarrow> - 1
      | Some t \<Rightarrow>
          (case filter (\<lambda>i. rmsValues ! i > t) (rev [0..<length rmsValues]) of
             [] \<Rightarrow> - 1 | i # _ \<Rightarrow> int i))"

text \<open>Lines 224 to 232, from the RMS values on.\<close>

definition boundariesOf :: "real list \<Rightarrow> real \<Rightarrow> LoopBoundaries" where
  "boundariesOf rmsValues dur =
     (let sortedRms = sort rmsValues;
          threshold = js_nth sortedRms (nat \<lfloor>real (length sortedRms) * 0.6\<rfloor>);
          iEnd = firstAbove rmsValues threshold;
          oStart = lastAbove rmsValues threshold;
          iE = min dur (real_of_int iEnd * 0.1 + 10);
          oS = max 0 (real_of_int oStart * 0.1 - 10);
          det = (iE < oS \<and> iE > 0 \<and> oS < dur)
      in \<lparr>introEnd = (if det then iE else 0), outroStart = (if det then oS else dur),
          detected = det\<rparr>)"

definition detectBoundaries :: "audio_buffer \<Rightarrow> LoopBoundaries option" where
  "detectBoundaries buffer =
     (let data = getChannelData buffer 0;
          chunkSize = nat \<lfloor>real (sampleRate buffer) * 0.1\<rfloor>
      in map_option (\<lambda>rmsValues. boundariesOf rmsValues (duration buffer))
           (rmsLoop data chunkSize 0 []))"

section \<open>Frequency analysis (\<open>extractFrequency\<close>, \<open>detectDominantFrequency\<close>)\<close>

text \<open>
  File names are strings of characters below 256. The classes of the pattern
  \<^verbatim>\<open>/(\d+[._]?\d*)\s*hz/i\<close>: \<^verbatim>\<open>\d\<close> is an ASCII digit, \<^verbatim>\<open>\s\<close> is a tab, a line
  feed, a vertical tab, a form feed, a carriage return, a space or a no-break space.
\<close>

definition isDigit :: "char \<Rightarrow> bool" where
  "isDigit c = (c \<in> set ''0123456789'')"

definition isSpace :: "char \<Rightarrow> bool" where
  "isSpace c = (of_char c \<in> set [9, 10, 11, 12, 13, 32, 160 :: nat])"

text \<open>
  A match starting at the head of \<open>s\<close>, as the captured group. Every quantifier takes all it
  can. Giving characters back never helps: the character given back is a digit, a point or
  an underscore, and what has to follow is white space or the letter h.
\<close>

definition matchAt :: "string \<Rightarrow> string option" where
  "matchAt s =
     (let d1 = takeWhile isDigit s;
          r1 = dropWhile isDigit s;
          sep = (case r1 of c # _ \<Rightarrow> if c = CHR ''.'' \<or> c = CHR ''_'' then [c] else [] | [] \<Rightarrow> []);
          r2 = drop (length sep) r1;
          d2 = takeWhile isDigit r2;
          r3 = dropWhile isSpace (dropWhile isDigit r2)
      in if d1 = [] then None
         else (case r3 of
                 h # z # _ \<Rightarrow>
                   if (h = CHR ''h'' \<or> h = CHR ''H'') \<and> (z = CHR ''z'' \<or> z = CHR ''Z'')
                   then Some (d1 @ sep @ d2) else None
               | _ \<Rightarrow> None))"

text \<open>\<open>name.match\<close>: the match at the leftmost position that has one.\<close>

fun firstMatch :: "string \<Rightarrow> string option" where
  "firstMatch [] = None"
| "firstMatch (c # cs) =
     (case matchAt (c # cs) of Some g \<Rightarrow> Some g | None \<Rightarrow> firstMatch cs)"

text \<open>\<open>replace('_', '.')\<close>: the first underscore only.\<close>

definition replaceUnderscore :: "string \<Rightarrow> string" where
  "replaceUnderscore s =
     takeWhile (\<lambda>c. c \<noteq> CHR ''_'') s @
     (case dropWhile (\<lambda>c. c \<noteq> CHR ''_'') s of [] \<Rightarrow> [] | _ # r \<Rightarrow> CHR ''.'' # r)"

definition digitsValue :: "string \<Rightarrow> nat" where
  "digitsValue ds = foldl (\<lambda>n c. 10 * n + (of_char c - 48)) 0 ds"

text \<open>
  \<open>parseFloat\<close> on the strings the group can hold: digits, then possibly a point and more
  digits. The value is the decimal number itself.
\<close>

definition parseFloat :: "string \<Rightarrow> real" where
  "parseFloat s =
     (let ip = takeWhile isDigit s;
          fp = (case dropWhile isDigit s of
                  c # r \<Rightarrow> if c = CHR ''.'' then takeWhile isDigit r else []
                | [] \<Rightarrow> [])
      in real (digitsValue ip) + real (digitsValue fp) / 10 ^ length fp)"

definition extractFrequency :: "string \<Rightarrow> real option" where
  "extractFrequency name =
     (case firstMatch name of
        Some g \<Rightarrow> Some (parseFloat (replaceUnderscore g))
      | None \<Rightarrow> None)"

text \<open>
  The spectrum comes from the host's analyser node, a parameter of the model: from the 2048
  samples of the window and the sample rate to one level in decibels per bin, \<open>None\<close> for
  \<open>-Infinity\<close>. The constructor of the offline context refuses a sample rate of 0.
\<close>

type_synonym decibels = "real option"

type_synonym analyser = "real list \<Rightarrow> nat \<Rightarrow> decibels list"

text \<open>\<open>freqData[i] > maxVal\<close>, the left side possibly \<open>undefined\<close>.\<close>

fun aboveLevel :: "decibels option \<Rightarrow> decibels \<Rightarrow> bool" where
  "aboveLevel None maxVal = False"
| "aboveLevel (Some None) maxVal = False"
| "aboveLevel (Some (Some x)) None = True"
| "aboveLevel (Some (Some x)) (Some y) = (x > y)"

definition dominantBin :: "decibels list \<Rightarrow> nat \<Rightarrow> nat" where
  "dominantBin freqData upperLimit =
     snd (foldl (\<lambda>(maxVal, maxIdx) i.
                   if aboveLevel (js_nth freqData i) maxVal then (freqData ! i, i)
                   else (maxVal, maxIdx))
            (None, 0) [1..<upperLimit])"

definition detectDominantFrequency :: "analyser \<Rightarrow> audio_buffer \<Rightarrow> error + real option" where
  "detectDominantFrequency analyse buffer =
     (let data = getChannelData buffer 0;
          rate = sampleRate buffer;
          fftSize = 2048
      in if rate = 0 then Inl NotSupportedError
         else
           let start = length data div 2;
               slice = take fftSize (drop start data);
               window = slice @ replicate (fftSize - length slice) 0;
               freqData = analyse window rate;
               upperLimit = (1000 * fftSize) div rate;
               maxIdx = dominantBin freqData upperLimit;
               freq = real maxIdx * (real rate / real fftSize)
           in Inr (if freq > 5 then Some (round1 freq) else None))"

text \<open>
  Line 24, \<open>extractFrequency(name) || detectDominantFrequency(buffer)\<close>: a hint that is a
  number other than 0 is the result, and the spectrum is not looked at.
\<close>

definition analyzeFrequency :: "analyser \<Rightarrow> string \<Rightarrow> audio_buffer \<Rightarrow> error + real option" where
  "analyzeFrequency analyse name buffer =
     (case extractFrequency name of
        Some hint \<Rightarrow> if hint \<noteq> 0 then Inr (Some hint) else detectDominantFrequency analyse buffer
      | None \<Rightarrow> detectDominantFrequency analyse buffer)"

section \<open>The analysis entrypoint (\<open>decodeFile\<close>)\<close>

text \<open>
  Decoding is the host's work: the model starts from the file's name, its media type and
  the decoded buffer.
\<close>

record audio_file =
  file_name :: string
  file_type :: string
  decoded :: audio_buffer

record AudioMetadata =
  md_name :: string
  md_duration :: real
  md_sampleRate :: nat
  md_buffer :: audio_buffer
  md_format :: string
  bpmInfo :: "bpm_info option"
  frequency :: "real option"
  pulseRate :: "real option"
  divisorBpms :: "real list option"

text \<open>
  Line 10, \<open>file.type.split('/')[1]?.toUpperCase() || 'AUDIO'\<close>, for a media type of ASCII
  characters: the text between the first and the second slash in upper case, or \<open>AUDIO\<close>
  when there is no slash or nothing there.
\<close>

definition upperAscii :: "char \<Rightarrow> char" where
  "upperAscii c =
     (case map_of (zip ''abcdefghijklmnopqrstuvwxyz'' ''ABCDEFGHIJKLMNOPQRSTUVWXYZ'') c of
        Some u \<Rightarrow> u
      | None \<Rightarrow> c)"

definition formatOf :: "string \<Rightarrow> string" where
  "formatOf t =
     (case dropWhile (\<lambda>c. c \<noteq> CHR ''/'') t of
        [] \<Rightarrow> ''AUDIO''
      | _ # r \<Rightarrow>
          (let part = map upperAscii (takeWhile (\<lambda>c. c \<noteq> CHR ''/'') r)
           in if part = [] then ''AUDIO'' else part))"

text \<open>The test \<open>if (metadata.frequency)\<close> of line 25: a number other than 0.\<close>

definition nonZero :: "real option \<Rightarrow> real option" where
  "nonZero x = (case x of Some v \<Rightarrow> if v \<noteq> 0 then Some v else None | None \<Rightarrow> None)"

definition decodeFile :: "analyser \<Rightarrow> audio_file \<Rightarrow> DetectionMode \<Rightarrow> (error + AudioMetadata) option" where
  "decodeFile analyse file mode =
     (let audioBuffer = decoded file;
          tempo = (if duration audioBuffer < 600
                   then map_option (map_sum id Some) (analyzeBpm audioBuffer mode)
                   else Some (Inr None))
      in case tempo of
           None \<Rightarrow> None
         | Some (Inl e) \<Rightarrow> Some (Inl e)
         | Some (Inr info) \<Rightarrow>
             (case analyzeFrequency analyse (file_name file) audioBuffer of
                Inl e \<Rightarrow> Some (Inl e)
              | Inr freq \<Rightarrow>
                  Some (Inr
                    \<lparr>md_name = file_name file,
                     md_duration = duration audioBuffer,
                     md_sampleRate = sampleRate audioBuffer,
                     md_buffer = audioBuffer,
                     md_format = formatOf (file_type file),
                     bpmInfo = info,
                     frequency = freq,
                     pulseRate = map_option (\<lambda>fr. fr * 60) (nonZero freq),
                     divisorBpms =
                       map_option (\<lambda>fr. map (\<lambda>n. round1 (fr * 60 / n)) [6, 8, 10, 12])
                         (nonZero freq)\<rparr>)))"

section \<open>Time stretching (\<open>timeStretch\<close>)\<close>

text \<open>
  Lines 265 to 272: one grain added into the output under its cosine window. The source
  leaves the loop at the first index past the output; later indices are past it as well.
  The guard of line 263 keeps \<open>inPos + i\<close> inside a channel of \<open>inputLength\<close> samples.
\<close>

definition addGrain :: "real list \<Rightarrow> nat \<Rightarrow> nat \<Rightarrow> nat \<Rightarrow> nat \<Rightarrow> real list \<Rightarrow> real list" where
  "addGrain inputData inPos grainSize outputLength outPos outputData =
     foldl (\<lambda>out i.
              if outPos + i \<ge> outputLength then out
              else out[outPos + i :=
                     out ! (outPos + i) +
                     inputData ! (inPos + i) *
                       (0.5 * (1 - cos ((2 * pi * real i) / (real grainSize - 1))))])
       outputData [0..<grainSize]"

text \<open>Lines 260 to 274. With \<open>outputStride = 0\<close> the loop can stay at one position for ever.\<close>

partial_function (option) grainLoop ::
  "real list \<Rightarrow> nat \<Rightarrow> real \<Rightarrow> nat \<Rightarrow> nat \<Rightarrow> nat \<Rightarrow> nat \<Rightarrow> real list \<Rightarrow> real list option" where
  "grainLoop inputData inputLength rate grainSize outputStride outputLength outPos outputData =
     (if outPos < outputLength
      then (let inPos = nat \<lfloor>real outPos * rate\<rfloor>
            in if inPos + grainSize > inputLength then Some outputData
               else grainLoop inputData inputLength rate grainSize outputStride outputLength
                      (outPos + outputStride)
                      (addGrain inputData inPos grainSize outputLength outPos outputData))
      else Some outputData)"

fun stretchChannels ::
  "real list list \<Rightarrow> nat \<Rightarrow> real \<Rightarrow> nat \<Rightarrow> nat \<Rightarrow> nat \<Rightarrow> real list list option" where
  "stretchChannels [] inputLength rate grainSize outputStride outputLength = Some []"
| "stretchChannels (inputData # rest) inputLength rate grainSize outputStride outputLength =
     (case grainLoop inputData inputLength rate grainSize outputStride outputLength 0
             (replicate outputLength 0) of
        None \<Rightarrow> None
      | Some outputData \<Rightarrow>
          map_option (\<lambda>others. outputData # others)
            (stretchChannels rest inputLength rate grainSize outputStride outputLength))"

text \<open>
  The offline context of line 247 is refused by the host (\<open>NotSupportedError\<close>) when it has
  no channel, no frame or no sample rate; a rate of 0 or below gives no positive finite
  output length.
\<close>

definition timeStretch :: "audio_buffer \<Rightarrow> real \<Rightarrow> (error + audio_buffer) option" where
  "timeStretch buffer rate =
     (if \<bar>rate - 1.0\<bar> < 0.01 then Some (Inr buffer)
      else
        let numChannels = numberOfChannels buffer;
            inputLength = buf_length buffer
        in if rate \<le> 0 \<or> \<lfloor>real inputLength / rate\<rfloor> \<le> 0 \<or> numChannels = 0 \<or> sampleRate buffer = 0
           then Some (Inl NotSupportedError)
           else
             let outputLength = nat \<lfloor>real inputLength / rate\<rfloor>;
                 grainSize = nat \<lfloor>real (sampleRate buffer) * 0.06\<rfloor>;
                 overlap = 0.5;
                 outputStride = nat \<lfloor>real grainSize * (1 - overlap)\<rfloor>
             in map_option (\<lambda>chs. Inr \<lparr>sampleRate = sampleRate buffer, channels = chs\<rparr>)
                  (stretchChannels (channels buffer) inputLength rate grainSize outputStride
                     outputLength))"

section \<open>The PCM encoder (\<open>audioBufferToLossless\<close>)\<close>

datatype ExportFormat = mp3_high | mp3_standard | wav_lossless | flac_lossless

record blob =
  blob_bytes :: "8 word list"
  blob_type :: string

text \<open>
  The \<open>DataView\<close> over the array buffer together with the variable \<open>offset\<close> of the
  enclosing function. A write that does not fit inside the buffer raises \<open>RangeError\<close> and
  writes nothing.
\<close>

type_synonym writer = "8 word list \<times> nat"

definition put :: "8 word list \<Rightarrow> writer \<Rightarrow> error + writer" where
  "put bs w =
     (case w of (view, offset) \<Rightarrow>
        if offset + length bs \<le> length view
        then Inr (take offset view @ bs @ drop (offset + length bs) view, offset + length bs)
        else Inl RangeError)"

text \<open>Little-endian byte order, the \<open>true\<close> of every \<open>DataView\<close> call.\<close>

definition le16 :: "16 word \<Rightarrow> 8 word list" where
  "le16 d = [ucast d, ucast (drop_bit 8 d)]"

definition le32 :: "32 word \<Rightarrow> 8 word list" where
  "le32 d = [ucast d, ucast (drop_bit 8 d), ucast (drop_bit 16 d), ucast (drop_bit 24 d)]"

text \<open>\<open>set16\<close> and \<open>set32\<close> of lines 437 and 438; the number is taken modulo the width.\<close>

definition set16 :: "nat \<Rightarrow> writer \<Rightarrow> error + writer" where
  "set16 d = put (le16 (of_nat d))"

definition set32 :: "nat \<Rightarrow> writer \<Rightarrow> error + writer" where
  "set32 d = put (le32 (of_nat d))"

text \<open>The conversion of a number to an integer drops the fraction, towards zero.\<close>

definition js_trunc :: "real \<Rightarrow> int" where
  "js_trunc x = (if x < 0 then \<lceil>x\<rceil> else \<lfloor>x\<rfloor>)"

text \<open>
  Lines 454 to 456 for one sample. An \<open>undefined\<close> sample turns into \<open>NaN\<close>, which
  \<open>setInt16\<close> writes as 0.
\<close>

definition pcm16 :: "real option \<Rightarrow> 16 word" where
  "pcm16 x =
     (case x of
        None \<Rightarrow> 0
      | Some v \<Rightarrow>
          (let s = max (- 1) (min 1 v);
               scaled = (if s < 0 then s * 32768 else s * 32767)
           in word_of_int (js_trunc scaled)))"

text \<open>Statements in sequence, the first exception ending the run.\<close>

fun chain :: "('s \<Rightarrow> error + 's) list \<Rightarrow> 's \<Rightarrow> error + 's" where
  "chain [] s = Inr s"
| "chain (f # fs) s = (case f s of Inl e \<Rightarrow> Inl e | Inr s' \<Rightarrow> chain fs s')"

definition headerWrites :: "audio_buffer \<Rightarrow> nat \<Rightarrow> (writer \<Rightarrow> error + writer) list" where
  "headerWrites buffer len =
     (let numOfChan = numberOfChannels buffer
      in [set32 0x46464952, set32 (len - 8), set32 0x45564157, set32 0x20746d66,
          set32 16, set16 1, set16 numOfChan, set32 (sampleRate buffer),
          set32 (sampleRate buffer * 2 * numOfChan), set16 (numOfChan * 2), set16 16,
          set32 0x61746164, (\<lambda>w. set32 (len - snd w - 4) w)])"

definition sampleWrites :: "audio_buffer \<Rightarrow> (writer \<Rightarrow> error + writer) list" where
  "sampleWrites buffer =
     concat (map (\<lambda>pos. map (\<lambda>i. put (le16 (pcm16 (js_nth (getChannelData buffer i) pos))))
                          [0..<numberOfChannels buffer])
               [0..<buf_length buffer])"

definition audioBufferToLossless :: "audio_buffer \<Rightarrow> ExportFormat \<Rightarrow> error + blob" where
  "audioBufferToLossless buffer format =
     (let numOfChan = numberOfChannels buffer;
          len = buf_length buffer * numOfChan * 2 + 44
      in case chain (headerWrites buffer len @ sampleWrites buffer) (replicate len 0, 0) of
           Inl e \<Rightarrow> Inl e
         | Inr (view, offset) \<Rightarrow>
             Inr \<lparr>blob_bytes = view,
                  blob_type = (if format = flac_lossless then ''audio/flac'' else ''audio/wav'')\<rparr>)"

section \<open>Double precision\<close>

text \<open>
  In the mixdown the placement times are sums and differences of doubles, and whether a
  loop ends depends on how they round. There every arithmetic operation of the source is
  followed by \<open>fl64\<close>, the rounding of a real to the nearest double, a tie going to the
  even significand: 53 significant bits, the exponent of the last bit never below
  \<open>-1074\<close>. Overflow to infinity is outside the model.
\<close>

definition roundHalfEven :: "real \<Rightarrow> int" where
  "roundHalfEven y =
     (let f = \<lfloor>y\<rfloor>
      in if y - real_of_int f < 1 / 2 then f
         else if y - real_of_int f > 1 / 2 then f + 1
         else if even f then f else f + 1)"

text \<open>The exponent of the last bit of the double nearest to \<open>x\<close>.\<close>

definition quantumExp :: "real \<Rightarrow> int" where
  "quantumExp x = max (\<lfloor>log 2 \<bar>x\<bar>\<rfloor> - 52) (- 1074)"

definition fl64 :: "real \<Rightarrow> real" where
  "fl64 x =
     (if x = 0 then 0
      else real_of_int (roundHalfEven (x / 2 powr real_of_int (quantumExp x))) *
           2 powr real_of_int (quantumExp x))"

section \<open>The mixdown (\<open>renderLoopingTrack\<close>, \<open>renderMusicTrack\<close>, \<open>process\<close>)\<close>

text \<open>
  The renderers build a graph in the host's offline context: per copy one buffer source
  behind one gain node, connected to the master gain. The model keeps, per copy, the calls
  made on the two nodes, in the order of creation.
\<close>

datatype gain_event = SetValueAtTime real real | LinearRampToValueAtTime real real

record source_node =
  src_buffer :: audio_buffer
  src_rate :: "real option"
  gain_events :: "gain_event list"
  start_when :: real
  start_offset :: real
  start_duration :: "real option"
  stop_when :: "real option"

text \<open>
  The host raises \<open>RangeError\<close> when a gain event is scheduled at a negative time, and when
  a source is started or stopped at a negative time or started with a negative offset or
  duration. An exception inside a renderer ends the render entrypoint.
\<close>

fun eventTime :: "gain_event \<Rightarrow> real" where
  "eventTime (SetValueAtTime v t) = t"
| "eventTime (LinearRampToValueAtTime v t) = t"

definition hostAccepts :: "source_node \<Rightarrow> bool" where
  "hostAccepts n =
     (list_all (\<lambda>ev. 0 \<le> eventTime ev) (gain_events n) \<and>
      0 \<le> start_when n \<and> 0 \<le> start_offset n \<and>
      (case start_duration n of None \<Rightarrow> True | Some d \<Rightarrow> 0 \<le> d) \<and>
      (case stop_when n of None \<Rightarrow> True | Some t \<Rightarrow> 0 \<le> t))"

text \<open>The attribute \<open>duration\<close> of a buffer as the renderers read it: the quotient as a double.\<close>

definition durationSeconds :: "audio_buffer \<Rightarrow> real" where
  "durationSeconds b = fl64 (duration b)"

text \<open>Lines 331 to 358: the copy of the foundation buffer placed at \<open>cur\<close>.\<close>

definition loopingNode ::
  "audio_buffer \<Rightarrow> real \<Rightarrow> real \<Rightarrow> real \<Rightarrow> real \<Rightarrow> real \<Rightarrow> source_node" where
  "loopingNode b dur totalDur targetVolume cf cur =
     (let segmentEnd = fl64 (cur + dur);
          fadeOutStart = fl64 (segmentEnd - cf)
      in \<lparr>src_buffer = b, src_rate = None,
          gain_events =
            (if cur = 0 then [SetValueAtTime targetVolume 0]
             else [SetValueAtTime 0 cur, LinearRampToValueAtTime targetVolume (fl64 (cur + cf))]) @
            (if segmentEnd < totalDur
             then [SetValueAtTime targetVolume fadeOutStart, LinearRampToValueAtTime 0 segmentEnd]
             else SetValueAtTime targetVolume (min fadeOutStart totalDur) #
                  (if totalDur > fadeOutStart
                   then [LinearRampToValueAtTime 0 (fl64 (totalDur + cf))]
                   else [])),
          start_when = cur, start_offset = 0, start_duration = None,
          stop_when = (if segmentEnd > totalDur then Some totalDur else None)\<rparr>)"

text \<open>Line 360, \<open>cur = cur + dur - cf\<close>: two operations, each rounded.\<close>

definition nextPlacement :: "real \<Rightarrow> real \<Rightarrow> real \<Rightarrow> real" where
  "nextPlacement dur cf cur = fl64 (fl64 (cur + dur) - cf)"

text \<open>The loop of lines 330 to 362, from the placement time \<open>cur\<close> on.\<close>

partial_function (option) loopingTrackFrom ::
  "audio_buffer \<Rightarrow> real \<Rightarrow> real \<Rightarrow> real \<Rightarrow> real \<Rightarrow> real \<Rightarrow> source_node list \<Rightarrow>
     (error + source_node list) option" where
  "loopingTrackFrom b dur totalDur targetVolume cf cur nodes =
     (if cur < totalDur
      then (let node = loopingNode b dur totalDur targetVolume cf cur
            in if \<not> hostAccepts node then Some (Inl RangeError)
               else if nextPlacement dur cf cur \<ge> totalDur then Some (Inr (nodes @ [node]))
               else loopingTrackFrom b dur totalDur targetVolume cf (nextPlacement dur cf cur)
                      (nodes @ [node]))
      else Some (Inr nodes))"

definition renderLoopingTrack ::
  "source_node list \<Rightarrow> audio_buffer \<Rightarrow> real \<Rightarrow> real \<Rightarrow> real \<Rightarrow>
     (error + source_node list) option" where
  "renderLoopingTrack ctx b totalDur targetVolume cf =
     loopingTrackFrom b (durationSeconds b) totalDur targetVolume cf 0 ctx"

text \<open>Lines 390 to 413: one repetition of the loop segment, placed at \<open>cur\<close>.\<close>

definition musicLoopNode ::
  "audio_buffer \<Rightarrow> real \<Rightarrow> real \<Rightarrow> real \<Rightarrow> real \<Rightarrow> real \<Rightarrow> real \<Rightarrow> real \<Rightarrow> real \<Rightarrow>
     source_node" where
  "musicLoopNode b targetVolume cf rate loopStart loopEnd eLoopDur lET cur =
     (let startTime = fl64 (cur - cf);
          segmentEnd = fl64 (cur + eLoopDur);
          next = fl64 (fl64 (cur + eLoopDur) - cf)
      in \<lparr>src_buffer = b, src_rate = Some rate,
          gain_events =
            [SetValueAtTime 0 startTime, LinearRampToValueAtTime targetVolume cur,
             SetValueAtTime targetVolume (fl64 (segmentEnd - cf)),
             LinearRampToValueAtTime 0 segmentEnd],
          start_when = startTime,
          start_offset = max 0 (fl64 (loopStart - fl64 (cf * rate))),
          start_duration = Some (fl64 (fl64 (loopEnd - loopStart) + fl64 (cf * rate))),
          stop_when = (if next \<ge> lET then Some lET else None)\<rparr>)"

partial_function (option) musicLoop ::
  "audio_buffer \<Rightarrow> real \<Rightarrow> real \<Rightarrow> real \<Rightarrow> real \<Rightarrow> real \<Rightarrow> real \<Rightarrow> real \<Rightarrow> real \<Rightarrow>
     source_node list \<Rightarrow> (error + real \<times> source_node list) option" where
  "musicLoop b targetVolume cf rate loopStart loopEnd eLoopDur lET cur nodes =
     (if cur < lET
      then (let node = musicLoopNode b targetVolume cf rate loopStart loopEnd eLoopDur lET cur;
                next = fl64 (fl64 (cur + eLoopDur) - cf)
            in if \<not> hostAccepts node then Some (Inl RangeError)
               else musicLoop b targetVolume cf rate loopStart loopEnd eLoopDur lET
                      (if next \<ge> lET then lET else next) (nodes @ [node]))
      else Some (Inr (cur, nodes)))"

text \<open>
  \<open>renderMusicTrack\<close>: the intro, the repetitions, the outro. Its only caller passes the
  playback rate 1.
\<close>

definition renderMusicTrack ::
  "source_node list \<Rightarrow> audio_buffer \<Rightarrow> real \<Rightarrow> real \<Rightarrow> LoopBoundaries \<Rightarrow> real \<Rightarrow> real \<Rightarrow>
     (error + source_node list) option" where
  "renderMusicTrack ctx b totalDur targetVolume bnd cf rate =
     (let loopStart = introEnd bnd;
          loopEnd = outroStart bnd;
          eIntroDur = fl64 (introEnd bnd / rate);
          eLoopDur = fl64 (fl64 (loopEnd - loopStart) / rate);
          eOutroDur = fl64 (fl64 (durationSeconds b - loopEnd) / rate);
          iNode = \<lparr>src_buffer = b, src_rate = Some rate,
                   gain_events =
                     [SetValueAtTime targetVolume 0,
                      SetValueAtTime targetVolume (fl64 (eIntroDur - cf)),
                      LinearRampToValueAtTime 0 eIntroDur],
                   start_when = 0, start_offset = 0, start_duration = Some (introEnd bnd),
                   stop_when = None\<rparr>;
          lET = fl64 (totalDur - eOutroDur)
      in if \<not> hostAccepts iNode then Some (Inl RangeError)
         else
           (case musicLoop b targetVolume cf rate loopStart loopEnd eLoopDur lET eIntroDur
                   (ctx @ [iNode]) of
              None \<Rightarrow> None
            | Some (Inl e) \<Rightarrow> Some (Inl e)
            | Some (Inr (cur, nodes)) \<Rightarrow>
                (let oNode = \<lparr>src_buffer = b, src_rate = Some rate,
                              gain_events =
                                [SetValueAtTime 0 (fl64 (cur - cf)),
                                 LinearRampToValueAtTime targetVolume cur],
                              start_when = fl64 (cur - cf),
                              start_offset = max 0 (fl64 (loopEnd - fl64 (cf * rate))),
                              start_duration = None, stop_when = None\<rparr>
                 in if \<not> hostAccepts oNode then Some (Inl RangeError)
                    else Some (Inr (nodes @ [oNode])))))"





section \<open>Example inputs\<close>

text \<open>Two seconds of a constant signal at 8000 Hz, and the metadata of its analysis.\<close>

definition tone :: audio_buffer where
  "tone = \<lparr>sampleRate = 8000, channels = [replicate 16000 0.5]\<rparr>"






text \<open>
  A click track at 10 Hz: clicks at 0, 0.5, 1, 2 and 3 seconds. A second one has a sixth
  click at 3.5 seconds.
\<close>

definition clicks :: "real list" where
  "clicks = [1, 0, 0, 0, 0, 1, 0, 0, 0, 0, 1, 0, 0, 0, 0, 0, 0, 0, 0, 0, 1,
             0, 0, 0, 0, 0, 0, 0, 0, 0, 1]"

definition sixClicks :: "real list" where
  "sixClicks = clicks @ [0, 0, 0, 0, 1]"

text \<open>Ten minutes of silence at 8000 Hz under a name that carries a frequency hint.\<close>

definition tenMinutes :: audio_file where
  "tenMinutes =
     \<lparr>file_name = ''bed_40hz.wav'', file_type = ''audio/wav'',
      decoded = \<lparr>sampleRate = 8000, channels = [replicate 4800000 0]\<rparr>\<rparr>"

text \<open>The two-second tone as an uploaded file.\<close>

definition toneFile :: audio_file where
  "toneFile = \<lparr>file_name = ''tone.wav'', file_type = ''audio/wav'', decoded = tone\<rparr>"

text \<open>Hosts whose analyser reports a fixed spectrum of a few bins.\<close>

definition quietAnalyser :: analyser where
  "quietAnalyser window rate = replicate 1024 None"



section \<open>The RIFF/WAVE layout of the specification\<close>

text \<open>
  The canonical 44-byte header of a 16-bit PCM file: the tag \<open>RIFF\<close>, the file size less
  8, the tag \<open>WAVE\<close>, the tag \<open>fmt\<close> with a space, the chunk size 16, the audio format
  1, the channel count, the sample rate, the byte rate, the block size, the sample width
  16, the tag \<open>data\<close> and the size of the samples in bytes.
\<close>

definition riffHeader :: "nat \<Rightarrow> nat \<Rightarrow> nat \<Rightarrow> 8 word list" where
  "riffHeader numChannels rate frames =
     [0x52, 0x49, 0x46, 0x46] @ le32 (of_nat (frames * numChannels * 2 + 36)) @
     [0x57, 0x41, 0x56, 0x45] @
     [0x66, 0x6D, 0x74, 0x20] @ le32 16 @ le16 1 @ le16 (of_nat numChannels) @
     le32 (of_nat rate) @ le32 (of_nat (rate * 2 * numChannels)) @
     le16 (of_nat (numChannels * 2)) @ le16 16 @
     [0x64, 0x61, 0x74, 0x61] @ le32 (of_nat (frames * numChannels * 2))"

text \<open>The samples frame by frame, within a frame channel by channel, two bytes each.\<close>

definition pcmPayload :: "audio_buffer \<Rightarrow> 8 word list" where
  "pcmPayload buffer =
     concat (map (\<lambda>pos. concat (map (\<lambda>i. le16 (pcm16 (js_nth (getChannelData buffer i) pos)))
                                   [0..<numberOfChannels buffer]))
               [0..<buf_length buffer])"

text \<open>A stereo buffer of two frames.\<close>

definition twoFrames :: audio_buffer where
  "twoFrames = \<lparr>sampleRate = 8000, channels = [[1, - 1], [0.5, - 0.25]]\<rparr>"

section \<open>The medians of the specification\<close>

text \<open>
  The specification's lower median: for an even count the smaller of the two middle values
  of the numerically sorted list. Beside it the upper median: the larger of the two. For an
  odd count both are the middle value.
\<close>

definition lowerMedian :: "real list \<Rightarrow> real" where
  "lowerMedian xs = sort xs ! ((length xs - 1) div 2)"

definition upperMedian :: "real list \<Rightarrow> real" where
  "upperMedian xs = sort xs ! (length xs div 2)"

section \<open>Octave correction is total on positive tempos\<close>

lemma halveLoop_returns:
  "c \<le> 200 * 2 ^ n \<Longrightarrow>
     \<exists>r. halveLoop c = Some r \<and> r \<le> 200 \<and> (0 < c \<longrightarrow> 0 < r) \<and> (c \<le> 200 \<longrightarrow> r = c)"
proof (induction n arbitrary: c)
  case 0
  then show ?case by (simp add: halveLoop.simps)
next
  case (Suc n)
  show ?case
  proof (cases "c > 200")
    case True
    from Suc.prems have "c / 2 \<le> 200 * 2 ^ n" by simp
    from Suc.IH [OF this] obtain r where
      r: "halveLoop (c / 2) = Some r" "r \<le> 200" "0 < c / 2 \<longrightarrow> 0 < r" by blast
    have "halveLoop c = Some r"
      using True r(1) by (subst halveLoop.simps) simp
    with r True show ?thesis by auto
  next
    case False
    then show ?thesis by (simp add: halveLoop.simps)
  qed
qed

lemma doubleLoop_returns:
  "0 < c \<Longrightarrow> c \<le> 200 \<Longrightarrow> 60 \<le> c * 2 ^ n \<Longrightarrow>
     \<exists>r. doubleLoop c = Some r \<and> 60 \<le> r \<and> r \<le> 200"
proof (induction n arbitrary: c)
  case 0
  then show ?case by (simp add: doubleLoop.simps)
next
  case (Suc n)
  show ?case
  proof (cases "c < 60")
    case True
    have "0 < c * 2" "c * 2 \<le> 200" "60 \<le> c * 2 * 2 ^ n"
      using Suc.prems True by (simp_all add: mult.assoc)
    from Suc.IH [OF this] obtain r where
      r: "doubleLoop (c * 2) = Some r" "60 \<le> r" "r \<le> 200" by blast
    have "doubleLoop c = Some r"
      using True r(1) by (subst doubleLoop.simps) simp
    with r show ?thesis by auto
  next
    case False
    with Suc.prems show ?thesis by (simp add: doubleLoop.simps)
  qed
qed

lemma pow2_above: "\<exists>n. (x::real) \<le> y * 2 ^ n" if "0 < y"
proof -
  obtain n where "x / y < 2 ^ n"
    using real_arch_pow [of 2 "x / y"] by auto
  with that have "x < y * 2 ^ n"
    by (simp add: pos_divide_less_eq mult.commute)
  then show ?thesis by (auto intro: less_imp_le)
qed

lemma octaveCorrect_total:
  assumes "0 < m"
  shows "\<exists>c. octaveCorrect m = Some c \<and> 60 \<le> c \<and> c \<le> 200"
proof -
  obtain n where "m \<le> 200 * 2 ^ n" using pow2_above [of 200 m] by auto
  from halveLoop_returns [OF this] assms obtain h where
    h: "halveLoop m = Some h" "h \<le> 200" "0 < h" by blast
  obtain k where "60 \<le> h * 2 ^ k" using pow2_above [OF h(3), of 60] by auto
  from doubleLoop_returns [OF h(3) h(2) this] obtain r where
    "doubleLoop h = Some r" "60 \<le> r" "r \<le> 200" by blast
  with h(1) show ?thesis by (simp add: octaveCorrect_def)
qed

lemma tukeyFilter_subset: "set (tukeyFilter xs) \<subseteq> set xs"
  by (auto simp: tukeyFilter_def Let_def split: option.splits)

lemma nat_floor_less: "0 < n \<Longrightarrow> x < real n \<Longrightarrow> nat \<lfloor>x\<rfloor> < n"
proof -
  assume "0 < n" "x < real n"
  then have "\<lfloor>x\<rfloor> < int n" by (simp add: floor_less_iff)
  with \<open>0 < n\<close> show ?thesis by arith
qed

lemma quartile_index:
  assumes "xs \<noteq> []"
  shows "nat \<lfloor>real (length xs) * 0.25\<rfloor> \<le> nat \<lfloor>real (length xs) * 0.75\<rfloor>"
    and "nat \<lfloor>real (length xs) * 0.75\<rfloor> < length xs"
proof -
  from assms have pos: "0 < length xs" by simp
  have "\<lfloor>real (length xs) * 0.25\<rfloor> \<le> \<lfloor>real (length xs) * 0.75\<rfloor>"
    by (rule floor_mono) simp
  then show "nat \<lfloor>real (length xs) * 0.25\<rfloor> \<le> nat \<lfloor>real (length xs) * 0.75\<rfloor>"
    by (rule nat_mono)
  have "real (length xs) * 0.75 < real (length xs)" using pos by simp
  with pos show "nat \<lfloor>real (length xs) * 0.75\<rfloor> < length xs"
    by (rule nat_floor_less)
qed

lemma tukeyFilter_nonempty:
  assumes "xs \<noteq> []" "sorted xs"
  shows "tukeyFilter xs \<noteq> []"
proof -
  define i where "i = nat \<lfloor>real (length xs) * 0.25\<rfloor>"
  define j where "j = nat \<lfloor>real (length xs) * 0.75\<rfloor>"
  from quartile_index [OF assms(1)] have ij: "i \<le> j" "j < length xs"
    by (simp_all add: i_def j_def)
  then have le: "xs ! i \<le> xs ! j" using assms(2) by (simp add: sorted_iff_nth_mono)
  have mem: "xs ! i \<in> set xs" using ij by simp
  have unfold: "tukeyFilter xs =
      (if xs ! j - xs ! i = 0 then xs
       else filter (\<lambda>t. t \<ge> xs ! i - 1.5 * (xs ! j - xs ! i) \<and>
                        t \<le> xs ! j + 1.5 * (xs ! j - xs ! i)) xs)"
    using ij by (simp add: tukeyFilter_def js_nth_def Let_def i_def j_def)
  show ?thesis
  proof (cases "xs ! j - xs ! i = 0")
    case True
    then show ?thesis using assms(1) by (simp add: unfold)
  next
    case False
    have "xs ! i \<ge> xs ! i - 1.5 * (xs ! j - xs ! i)"
         "xs ! i \<le> xs ! j + 1.5 * (xs ! j - xs ! i)"
    proof -
      from le have "0 \<le> 1.5 * (xs ! j - xs ! i)" by simp
      with le show "xs ! i \<ge> xs ! i - 1.5 * (xs ! j - xs ! i)"
        and "xs ! i \<le> xs ! j + 1.5 * (xs ! j - xs ! i)" by linarith+
    qed
    with mem False have "xs ! i \<in> set (tukeyFilter xs)"
      by (simp add: unfold)
    then show ?thesis by auto
  qed
qed

lemma medianOf_member: "ys \<noteq> [] \<Longrightarrow> \<exists>m. medianOf ys = Some m \<and> m \<in> set ys"
proof -
  assume "ys \<noteq> []"
  then have pos: "0 < length ys" by simp
  have "real (length ys) / 2 < real (length ys)" using pos by simp
  with pos have "nat \<lfloor>real (length ys) / 2\<rfloor> < length ys" by (rule nat_floor_less)
  then show ?thesis by (simp add: medianOf_def js_nth_def)
qed

text \<open>
  Claim C2. For every positive median tempo the two octave loops return, and the value they
  return lies between 60 and 200. Hence, for every non-empty list of positive raw tempos,
  the aggregator returns an estimate whose corrected value, before it is rounded to one
  decimal, lies between 60 and 200.
\<close>

theorem octave_correction_total:
  "(0 < m \<longrightarrow> (\<exists>c. octaveCorrect m = Some c \<and> 60 \<le> c \<and> c \<le> 200)) \<and>
   (raws \<noteq> [] \<and> (\<forall>t\<in>set raws. 0 < t) \<longrightarrow>
      (\<exists>info med c. aggregateBpm raws mode algs = Some info \<and>
         medianOf (tukeyFilter (sort raws)) = Some med \<and>
         octaveCorrect med = Some c \<and> 60 \<le> c \<and> c \<le> 200 \<and>
         corrected info = Some (round1 c)))"
proof (intro conjI impI)
  assume "0 < m"
  then show "\<exists>c. octaveCorrect m = Some c \<and> 60 \<le> c \<and> c \<le> 200"
    by (rule octaveCorrect_total)
next
  assume a: "raws \<noteq> [] \<and> (\<forall>t\<in>set raws. 0 < t)"
  then have ne: "sort raws \<noteq> []" by (metis length_sort length_0_conv)
  from tukeyFilter_nonempty [OF ne] have "tukeyFilter (sort raws) \<noteq> []" by simp
  from medianOf_member [OF this] obtain med where
    med: "medianOf (tukeyFilter (sort raws)) = Some med" "med \<in> set (tukeyFilter (sort raws))"
    by blast
  from med(2) tukeyFilter_subset have "med \<in> set raws" by fastforce
  with a have "0 < med" by blast
  from octaveCorrect_total [OF this] obtain c where
    c: "octaveCorrect med = Some c" "60 \<le> c" "c \<le> 200" by blast
  have "\<exists>info. aggregateBpm raws mode algs = Some info \<and> corrected info = Some (round1 c)"
    using a med(1) c(1) by (simp add: aggregateBpm_def Let_def)
  with med(1) c show "\<exists>info med c. aggregateBpm raws mode algs = Some info \<and>
         medianOf (tukeyFilter (sort raws)) = Some med \<and>
         octaveCorrect med = Some c \<and> 60 \<le> c \<and> c \<le> 200 \<and>
         corrected info = Some (round1 c)" by blast
qed

theorem octave_correction_total_witness:
  "0 < (450::real) \<and> (\<exists>c. octaveCorrect 450 = Some c \<and> 60 \<le> c \<and> c \<le> 200) \<and>
   [450, 35, 128.5 :: real] \<noteq> [] \<and> list_all (\<lambda>t. 0 < t) [450, 35, 128.5 :: real] \<and>
   (\<exists>info med c. aggregateBpm [450, 35, 128.5] Fast [''Peak Clustering''] = Some info \<and>
         medianOf (tukeyFilter (sort [450, 35, 128.5])) = Some med \<and>
         octaveCorrect med = Some c \<and> 60 \<le> c \<and> c \<le> 200 \<and>
         corrected info = Some (round1 c))"
  using octave_correction_total [of 450 "[450, 35, 128.5]" Fast "[''Peak Clustering'']"]
  by simp


section \<open>Loop boundaries: the invariant and short tracks\<close>

lemma rmsLoop_returns:
  assumes "0 < cs"
  shows "\<exists>r. rmsLoop data cs i acc = Some r \<and> length acc \<le> length r \<and>
             (length r - length acc) * cs < (length data - i) + cs"
proof (induction "length data - i" arbitrary: i acc rule: less_induct)
  case less
  show ?case
  proof (cases "i < length data")
    case False
    then show ?thesis using assms by (subst rmsLoop.simps) simp
  next
    case True
    define acc' where "acc' = acc @ [sqrt (foldl (\<lambda>a j. a + data ! j * data ! j) 0
        [i..<min (i + cs) (length data)] / real (min (i + cs) (length data) - i))]"
    have "length data - (i + cs) < length data - i" using True assms by simp
    from less [OF this, of acc'] obtain r where
      r: "rmsLoop data cs (i + cs) acc' = Some r" "length acc' \<le> length r"
         "(length r - length acc') * cs < (length data - (i + cs)) + cs" by blast
    have step: "rmsLoop data cs i acc = Some r"
      using True r(1) by (subst rmsLoop.simps) (simp add: Let_def acc'_def)
    have la: "length acc' = Suc (length acc)" by (simp add: acc'_def)
    have eq: "(length r - length acc) * cs = cs + (length r - length acc') * cs"
    proof -
      have "length r - length acc = Suc (length r - length acc')" using r(2) la by simp
      then show ?thesis by simp
    qed
    have bound: "(length r - length acc) * cs < (length data - i) + cs"
    proof (cases "i + cs \<le> length data")
      case True
      with r(3) eq show ?thesis by simp
    next
      case False
      then have "(length r - length acc') * cs < cs" using r(3) by simp
      then have "length r - length acc' = 0" by (cases "length r - length acc'") simp_all
      with eq have "(length r - length acc) * cs = cs" by simp
      moreover have "0 < length data - i" using \<open>i < length data\<close> by simp
      ultimately show ?thesis by linarith
    qed
    from step r(2) la bound show ?thesis by simp
  qed
qed

lemma firstAbove_lower: "- 1 \<le> firstAbove rms th"
  by (simp add: firstAbove_def split: option.split list.split)

lemma lastAbove_upper: "lastAbove rms th < int (length rms) \<or> lastAbove rms th = - 1"
proof (cases th)
  case None
  then show ?thesis by (simp add: lastAbove_def)
next
  case (Some t)
  show ?thesis
  proof (cases "filter (\<lambda>i. rms ! i > t) (rev [0..<length rms])")
    case Nil
    with Some show ?thesis by (simp add: lastAbove_def)
  next
    case (Cons i rest)
    then have "i \<in> set (filter (\<lambda>i. rms ! i > t) (rev [0..<length rms]))" by simp
    then have "i < length rms" by simp
    with Some Cons show ?thesis by (simp add: lastAbove_def)
  qed
qed

lemma boundariesOf_invariant:
  "(detected (boundariesOf rms d) \<longrightarrow>
      0 < introEnd (boundariesOf rms d) \<and>
      introEnd (boundariesOf rms d) < outroStart (boundariesOf rms d) \<and>
      outroStart (boundariesOf rms d) < d) \<and>
   (\<not> detected (boundariesOf rms d) \<longrightarrow>
      introEnd (boundariesOf rms d) = 0 \<and> outroStart (boundariesOf rms d) = d)"
  by (simp add: boundariesOf_def Let_def)

lemma chunkSize_pos: "10 \<le> sr \<Longrightarrow> 0 < nat \<lfloor>real sr * 0.1\<rfloor>"
proof -
  assume "10 \<le> sr"
  then have "1 \<le> real sr * 0.1" by simp
  then have "1 \<le> \<lfloor>real sr * 0.1\<rfloor>" by (simp add: le_floor_iff)
  then show ?thesis by simp
qed

lemma rmsLoop_unit:
  "i \<le> length data \<Longrightarrow>
     rmsLoop data 1 i acc = Some (acc @ map (\<lambda>x. sqrt (x * x)) (drop i data))"
proof (induction "length data - i" arbitrary: i acc rule: less_induct)
  case less
  show ?case
  proof (cases "i < length data")
    case False
    with less.prems show ?thesis by (subst rmsLoop.simps) simp
  next
    case True
    have "length data - Suc i < length data - i" using True by simp
    from less.hyps [OF this, of "acc @ [sqrt (data ! i * data ! i)]"] True
    have ih: "rmsLoop data 1 (Suc i) (acc @ [sqrt (data ! i * data ! i)]) =
               Some ((acc @ [sqrt (data ! i * data ! i)]) @ map (\<lambda>x. sqrt (x * x)) (drop (Suc i) data))"
      by simp
    have d: "drop i data = data ! i # drop (Suc i) data"
      using True by (simp add: Cons_nth_drop_Suc)
    show ?thesis
      using True ih by (subst rmsLoop.simps) (simp add: Let_def d min_def)
  qed
qed

lemma firstAbove_eq:
  assumes "i < length rms" "rms ! i > t" "\<forall>j<i. \<not> rms ! j > t"
  shows "firstAbove rms (Some t) = int i"
proof -
  have "[0..<length rms] = [0..<i] @ i # [Suc i..<length rms]"
    using assms(1) by (metis less_imp_le_nat upt_add_eq_append upt_conv_Cons le0 le_add_diff_inverse)
  moreover have "filter (\<lambda>k. rms ! k > t) [0..<i] = []"
    using assms(3) by (simp add: filter_empty_conv)
  ultimately show ?thesis using assms(2) by (simp add: firstAbove_def)
qed

lemma lastAbove_eq:
  assumes "i < length rms" "rms ! i > t" "\<forall>j. i < j \<and> j < length rms \<longrightarrow> \<not> rms ! j > t"
  shows "lastAbove rms (Some t) = int i"
proof -
  have "[0..<length rms] = [0..<i] @ i # [Suc i..<length rms]"
    using assms(1) by (metis less_imp_le_nat upt_add_eq_append upt_conv_Cons le0 le_add_diff_inverse)
  then have "rev [0..<length rms] = rev [Suc i..<length rms] @ i # rev [0..<i]" by simp
  moreover have "filter (\<lambda>k. rms ! k > t) (rev [Suc i..<length rms]) = []"
    using assms(3) by (auto simp: filter_empty_conv)
  ultimately show ?thesis using assms(2) by (simp add: lastAbove_def)
qed

lemma sort_example: "sort (1 # replicate 250 0 @ [1 :: real]) = replicate 250 0 @ [1, 1]"
proof -
  have s: "sorted (replicate 250 0 @ [1 :: real])" by (simp add: sorted_append)
  then have "sort (replicate 250 0 @ [1 :: real]) = replicate 250 0 @ [1]"
    by (rule sorted_sort_id)
  moreover have "insort 1 (replicate 250 0 @ [1 :: real]) = (replicate 250 0 @ [1]) @ [1]"
    using s by (intro sorted_insort_is_snoc) auto
  ultimately show ?thesis by simp
qed

lemma boundaries_example:
  "detectBoundaries \<lparr>sampleRate = 10, channels = [1 # replicate 250 0 @ [1]]\<rparr> =
     Some \<lparr>introEnd = 10, outroStart = 15.1, detected = True\<rparr>"
proof -
  define data :: "real list" where "data = 1 # replicate 250 0 @ [1]"
  have len: "length data = 252" by (simp add: data_def)
  have rms: "rmsLoop data 1 0 [] = Some data"
    using rmsLoop_unit [of 0 data "[]"] by (simp add: data_def)
  have th: "js_nth (sort data) (nat \<lfloor>real (length (sort data)) * 0.6\<rfloor>) = Some 0"
    unfolding data_def sort_example by (simp add: js_nth_def nth_append)
  have f: "firstAbove data (Some 0) = 0"
    using firstAbove_eq [of 0 data 0] by (simp add: data_def)
  have l: "lastAbove data (Some 0) = 251"
    using lastAbove_eq [of 251 data 0] by (simp add: len) (simp add: data_def nth_append)
  have "boundariesOf data (252 / 10) = \<lparr>introEnd = 10, outroStart = 15.1, detected = True\<rparr>"
    unfolding boundariesOf_def Let_def th f l by simp
  with rms show ?thesis
    by (simp add: detectBoundaries_def getChannelData_def duration_def buf_length_def
        data_def [symmetric] len)
qed

lemma boundariesOf_short:
  assumes "length rms \<le> 200"
  shows "boundariesOf rms d = \<lparr>introEnd = 0, outroStart = d, detected = False\<rparr>"
proof -
  define th where "th = js_nth (sort rms) (nat \<lfloor>real (length (sort rms)) * 0.6\<rfloor>)"
  have "- 1 \<le> firstAbove rms th" by (rule firstAbove_lower)
  then have i: "- 1 \<le> real_of_int (firstAbove rms th)" by linarith
  have "lastAbove rms th \<le> 199" using lastAbove_upper [of rms th] assms by auto
  then have o: "real_of_int (lastAbove rms th) \<le> 199" by linarith
  show ?thesis
    unfolding boundariesOf_def Let_def th_def [symmetric]
    using i o by (auto simp: min_def max_def)
qed

text \<open>
  Claim C4. For a sample rate of at least 10 the boundary detector returns, and every value
  it returns satisfies: with \<open>detected\<close> set, \<open>0 < introEnd < outroStart < duration\<close>;
  with \<open>detected\<close> not set, \<open>introEnd = 0\<close> and \<open>outroStart = duration\<close>.
\<close>

theorem boundaries_invariant:
  "(10 \<le> sampleRate b \<longrightarrow> (\<exists>lb. detectBoundaries b = Some lb)) \<and>
   (\<forall>lb. detectBoundaries b = Some lb \<longrightarrow>
      (detected lb \<longrightarrow> 0 < introEnd lb \<and> introEnd lb < outroStart lb \<and> outroStart lb < duration b) \<and>
      (\<not> detected lb \<longrightarrow> introEnd lb = 0 \<and> outroStart lb = duration b))"
proof (intro conjI impI allI)
  assume "10 \<le> sampleRate b"
  then have "0 < nat \<lfloor>real (sampleRate b) * 0.1\<rfloor>" by (rule chunkSize_pos)
  from rmsLoop_returns [OF this, of "getChannelData b 0" 0 "[]"]
  show "\<exists>lb. detectBoundaries b = Some lb"
    by (auto simp: detectBoundaries_def Let_def)
next
  fix lb assume "detectBoundaries b = Some lb"
  then obtain rms where lb: "lb = boundariesOf rms (duration b)"
    by (auto simp: detectBoundaries_def Let_def)
  {
    assume "detected lb"
    with lb boundariesOf_invariant [of rms "duration b"]
    show "0 < introEnd lb" "introEnd lb < outroStart lb" "outroStart lb < duration b" by simp_all
  }
  {
    assume "\<not> detected lb"
    with lb boundariesOf_invariant [of rms "duration b"]
    show "introEnd lb = 0" "outroStart lb = duration b" by simp_all
  }
qed

theorem boundaries_invariant_witness:
  "10 \<le> sampleRate \<lparr>sampleRate = 10, channels = [1 # replicate 250 0 @ [1]]\<rparr> \<and>
   detectBoundaries \<lparr>sampleRate = 10, channels = [1 # replicate 250 0 @ [1]]\<rparr> =
     Some \<lparr>introEnd = 10, outroStart = 15.1, detected = True\<rparr> \<and>
   detected \<lparr>introEnd = 10, outroStart = 15.1, detected = True\<rparr> \<and>
   (0 :: real) < 10 \<and> (10 :: real) < 15.1 \<and>
   15.1 < duration \<lparr>sampleRate = 10, channels = [1 # replicate 250 0 @ [1]]\<rparr>"
  using boundaries_invariant [of "\<lparr>sampleRate = 10, channels = [1 # replicate 250 0 @ [1]]\<rparr>"]
    boundaries_example
  by simp


text \<open>
  Claim C10. For a sample rate of at least 8000 and a duration of at most 19.8 seconds the
  boundary detector returns \<open>detected = false\<close> with the defaults \<open>(0, duration)\<close>: there
  are at most 200 chunks, so the last chunk above the threshold has an index of at most
  199 and \<open>outroStart\<close> stays at or below 9.9, while \<open>introEnd\<close> is at least 9.9 or the
  whole duration.
\<close>

theorem short_tracks_no_loop:
  assumes "8000 \<le> sampleRate b" and "duration b \<le> 19.8"
  shows "detectBoundaries b = Some \<lparr>introEnd = 0, outroStart = duration b, detected = False\<rparr>"
proof -
  define sr where "sr = sampleRate b"
  define n where "n = length (getChannelData b 0)"
  define cs where "cs = nat \<lfloor>real sr * 0.1\<rfloor>"
  have sr: "8000 \<le> sr" using assms(1) by (simp add: sr_def)
  then have cspos: "0 < cs" unfolding cs_def by (intro chunkSize_pos) simp
  have n: "real n \<le> 19.8 * real sr"
    using assms(2) sr by (simp add: duration_def buf_length_def n_def sr_def field_simps)
  have "real sr * 0.1 - 1 < real_of_int \<lfloor>real sr * 0.1\<rfloor>" by linarith
  then have cs_low: "real sr * 0.1 - 1 < real cs" using cspos by (simp add: cs_def)
  from rmsLoop_returns [OF cspos, of "getChannelData b 0" 0 "[]"] obtain rms where
    rms: "rmsLoop (getChannelData b 0) cs 0 [] = Some rms" "length rms * cs < n + cs"
    by (auto simp: n_def)
  have "length rms \<le> 200"
  proof (rule ccontr)
    assume "\<not> length rms \<le> 200"
    then have "201 \<le> length rms" by simp
    then have "201 * cs \<le> length rms * cs" by (rule mult_le_mono1)
    with rms(2) have "200 * cs < n" by linarith
    then have "200 * real cs < real n" by (metis of_nat_less_iff of_nat_mult of_nat_numeral)
    with n cs_low sr show False by simp
  qed
  from boundariesOf_short [OF this] rms(1) show ?thesis
    by (simp add: detectBoundaries_def Let_def cs_def sr_def)
qed

theorem short_tracks_no_loop_witness:
  "8000 \<le> sampleRate \<lparr>sampleRate = 8000, channels = [[0.5, - 0.5, 0.25]]\<rparr> \<and>
   duration \<lparr>sampleRate = 8000, channels = [[0.5, - 0.5, 0.25]]\<rparr> \<le> 19.8 \<and>
   detectBoundaries \<lparr>sampleRate = 8000, channels = [[0.5, - 0.5, 0.25]]\<rparr> =
     Some \<lparr>introEnd = 0, outroStart = 3 / 8000, detected = False\<rparr>"
  using short_tracks_no_loop [of "\<lparr>sampleRate = 8000, channels = [[0.5, - 0.5, 0.25]]\<rparr>"]
  by (simp add: duration_def buf_length_def getChannelData_def)


section \<open>Time stretching: the no-op threshold\<close>

text \<open>
  Claim C6. For every buffer and every rate with \<open>|rate - 1| < 0.01\<close>, and so for the rate
  1, the time stretcher returns the input buffer itself.
\<close>

theorem timeStretch_identity:
  "\<bar>rate - 1\<bar> < 0.01 \<Longrightarrow> timeStretch buffer rate = Some (Inr buffer)"
  by (simp add: timeStretch_def)

theorem timeStretch_identity_witness:
  "\<bar>1 - 1 :: real\<bar> < 0.01 \<and>
   timeStretch \<lparr>sampleRate = 44100, channels = [[0.5, - 0.25], [0.1, 1]]\<rparr> 1 =
     Some (Inr \<lparr>sampleRate = 44100, channels = [[0.5, - 0.25], [0.1, 1]]\<rparr>) \<and>
   \<bar>1.005 - 1 :: real\<bar> < 0.01 \<and>
   timeStretch \<lparr>sampleRate = 44100, channels = [[0.5, - 0.25], [0.1, 1]]\<rparr> 1.005 =
     Some (Inr \<lparr>sampleRate = 44100, channels = [[0.5, - 0.25], [0.1, 1]]\<rparr>)"
  using timeStretch_identity [of 1 "\<lparr>sampleRate = 44100, channels = [[0.5, - 0.25], [0.1, 1]]\<rparr>"]
    timeStretch_identity [of "1.005" "\<lparr>sampleRate = 44100, channels = [[0.5, - 0.25], [0.1, 1]]\<rparr>"]
  by simp


section \<open>The peak pass: which median\<close>

lemma peakLoop_returns:
  assumes "0 < hopSize"
  shows "\<exists>peaks. peakLoop data rate hopSize step i acc = Some peaks"
proof (induction "length data - i" arbitrary: i acc rule: less_induct)
  case less
  show ?case
  proof (cases "i < length data")
    case False
    then show ?thesis by (subst peakLoop.simps) simp
  next
    case True
    then have "length data - (i + hopSize) < length data - i" using assms by simp
    from less [OF this] show ?thesis using True by (subst peakLoop.simps) simp
  qed
qed

lemma nat_floor_half: "nat \<lfloor>real n / 2\<rfloor> = n div 2"
proof -
  have "\<lfloor>real n / real 2\<rfloor> = int (n div 2)" by (rule floor_divide_of_nat_eq)
  then show ?thesis by simp
qed

lemma upperMedian_even:
  assumes "even (length xs)" "xs \<noteq> []"
  shows "upperMedian xs = max (sort xs ! (length xs div 2 - 1)) (sort xs ! (length xs div 2))"
    and "lowerMedian xs = min (sort xs ! (length xs div 2 - 1)) (sort xs ! (length xs div 2))"
proof -
  from assms have pos: "0 < length xs" by simp
  with assms(1) have h: "length xs div 2 - 1 \<le> length xs div 2" "length xs div 2 < length (sort xs)"
    by simp_all
  have le: "sort xs ! (length xs div 2 - 1) \<le> sort xs ! (length xs div 2)"
    using h by (intro sorted_nth_mono) simp_all
  show "upperMedian xs = max (sort xs ! (length xs div 2 - 1)) (sort xs ! (length xs div 2))"
    using le by (simp add: upperMedian_def max_def)
  have "(length xs - 1) div 2 = length xs div 2 - 1"
    using assms(1) pos by (auto elim!: evenE)
  then show "lowerMedian xs = min (sort xs ! (length xs div 2 - 1)) (sort xs ! (length xs div 2))"
    using le by (simp add: lowerMedian_def min_def)
qed

lemma peaks_clicks: "recordedPeaks clicks 10 (1 / 10) = Some [0, 1 / 2, 1, 2, 3]"
  by (simp add: recordedPeaks_def clicks_def peakLoop.simps blockMax_def)

lemma kept_clicks: "keptDiffs [0, 1 / 2, 1, 2, 3] = [1 / 2, 1 / 2, 1, 1]"
  by (simp add: keptDiffs_def upt_conv_Cons)

lemma peaks_sixClicks: "recordedPeaks sixClicks 10 (1 / 10) = Some [0, 1 / 2, 1, 2, 3, 7 / 2]"
  by (simp add: recordedPeaks_def sixClicks_def clicks_def peakLoop.simps blockMax_def)

lemma kept_sixClicks: "keptDiffs [0, 1 / 2, 1, 2, 3, 7 / 2] = [1 / 2, 1 / 2, 1, 1, 1 / 2]"
  by (simp add: keptDiffs_def upt_conv_Cons)

text \<open>
  Claim C8, as the code has it. A pass with a positive hop size returns. When it records at
  least 5 peaks, its tempo is 0 if no difference is kept, and otherwise 60 divided by the
  element at index \<open>floor(n / 2)\<close> of the numerically sorted kept differences: the upper
  median, which for an even count is the larger of the two middle values.
\<close>

theorem peak_pass_tempo:
  "(0 < nat \<lfloor>real rate * hopSec\<rfloor> \<longrightarrow> (\<exists>peaks. recordedPeaks data rate hopSec = Some peaks)) \<and>
   (\<forall>peaks. recordedPeaks data rate hopSec = Some peaks \<and> 5 \<le> length peaks \<longrightarrow>
      detectBpmByPeakClustering data rate hopSec =
        Some (if keptDiffs peaks = [] then 0 else 60 / upperMedian (keptDiffs peaks))) \<and>
   (\<forall>xs. even (length xs) \<and> xs \<noteq> [] \<longrightarrow>
      upperMedian xs = max (sort xs ! (length xs div 2 - 1)) (sort xs ! (length xs div 2)))"
proof (intro conjI impI allI)
  assume "0 < nat \<lfloor>real rate * hopSec\<rfloor>"
  then show "\<exists>peaks. recordedPeaks data rate hopSec = Some peaks"
    unfolding recordedPeaks_def by (rule peakLoop_returns)
next
  fix peaks
  assume "recordedPeaks data rate hopSec = Some peaks \<and> 5 \<le> length peaks"
  then show "detectBpmByPeakClustering data rate hopSec =
        Some (if keptDiffs peaks = [] then 0 else 60 / upperMedian (keptDiffs peaks))"
    by (simp add: detectBpmByPeakClustering_def Let_def upperMedian_def nat_floor_half)
next
  fix xs :: "real list"
  assume "even (length xs) \<and> xs \<noteq> []"
  then show "upperMedian xs = max (sort xs ! (length xs div 2 - 1)) (sort xs ! (length xs div 2))"
    using upperMedian_even(1) by blast
qed

theorem peak_pass_tempo_witness:
  "0 < nat \<lfloor>real 10 * 0.1\<rfloor> \<and>
   recordedPeaks sixClicks 10 0.1 = Some [0, 0.5, 1, 2, 3, 3.5] \<and>
   5 \<le> length [0, 0.5, 1, 2, 3, 3.5 :: real] \<and>
   detectBpmByPeakClustering sixClicks 10 0.1 = Some 120 \<and>
   even (length [0.5, 0.5, 1, 1 :: real]) \<and> [0.5, 0.5, 1, 1 :: real] \<noteq> [] \<and>
   upperMedian [0.5, 0.5, 1, 1] = max (0.5 :: real) 1"
  using peak_pass_tempo [of 10 "0.1" sixClicks] peaks_sixClicks kept_sixClicks
  by (simp add: upperMedian_def)


text \<open>
  Claim C8 as stated fails: five clicks give the kept differences 0.5, 0.5, 1 and 1, whose
  lower median is 0.5, a tempo of 120; the pass divides by 1 and returns 60.
\<close>

theorem lower_median_counterexample:
  "recordedPeaks clicks 10 0.1 = Some [0, 0.5, 1, 2, 3] \<and>
   5 \<le> length [0, 0.5, 1, 2, 3 :: real] \<and>
   keptDiffs [0, 0.5, 1, 2, 3] = [0.5, 0.5, 1, 1] \<and>
   lowerMedian [0.5, 0.5, 1, 1] = 0.5 \<and>
   detectBpmByPeakClustering clicks 10 0.1 = Some 60 \<and>
   60 / lowerMedian (keptDiffs [0, 0.5, 1, 2, 3]) = 120"
  by (simp add: detectBpmByPeakClustering_def peaks_clicks kept_clicks Let_def lowerMedian_def)


section \<open>The analysis entrypoint: the ten-minute gate\<close>

lemma aggregateBpm_returns:
  assumes "\<forall>t\<in>set raws. 0 < t"
  shows "\<exists>info. aggregateBpm raws mode algs = Some info"
proof (cases "raws = []")
  case True
  then show ?thesis by (simp add: aggregateBpm_def)
next
  case False
  then have ne: "sort raws \<noteq> []" by (metis length_sort length_0_conv)
  from tukeyFilter_nonempty [OF ne] have "tukeyFilter (sort raws) \<noteq> []" by simp
  from medianOf_member [OF this] obtain med where
    med: "medianOf (tukeyFilter (sort raws)) = Some med" "med \<in> set (tukeyFilter (sort raws))"
    by blast
  from med(2) tukeyFilter_subset have "med \<in> set raws" by fastforce
  with assms have "0 < med" by blast
  from octaveCorrect_total [OF this] obtain c where "octaveCorrect med = Some c" by blast
  with False med(1) show ?thesis by (simp add: aggregateBpm_def Let_def)
qed

lemma round1_pos: "40 < t \<Longrightarrow> 0 < round1 t"
proof -
  assume "40 < t"
  then have "1 \<le> t * 10 + 1 / 2" by simp
  then have "1 \<le> \<lfloor>t * 10 + 1 / 2\<rfloor>" by (simp add: le_floor_iff)
  then have "0 < real_of_int \<lfloor>t * 10 + 1 / 2\<rfloor>" by linarith
  then show ?thesis by (simp add: round1_def js_round_def)
qed

lemma detectBpmByPeakClustering_returns:
  "0 < nat \<lfloor>real rate * hop\<rfloor> \<Longrightarrow> \<exists>tempo. detectBpmByPeakClustering data rate hop = Some tempo"
proof -
  assume "0 < nat \<lfloor>real rate * hop\<rfloor>"
  then obtain peaks where "recordedPeaks data rate hop = Some peaks"
    unfolding recordedPeaks_def using peakLoop_returns by blast
  then show ?thesis by (simp add: detectBpmByPeakClustering_def Let_def)
qed

lemma fastPasses_returns:
  assumes "\<forall>hop\<in>set hops. 0 < nat \<lfloor>real rate * hop\<rfloor>" "\<forall>t\<in>set acc. 0 < t"
  shows "\<exists>raws. fastPasses data rate hops acc = Some raws \<and> (\<forall>t\<in>set raws. 0 < t)"
  using assms
proof (induction hops arbitrary: acc)
  case Nil
  then show ?case by simp
next
  case (Cons hop hops)
  from Cons.prems(1) obtain tempo where t: "detectBpmByPeakClustering data rate hop = Some tempo"
    using detectBpmByPeakClustering_returns [of rate hop data] by auto
  define acc' where "acc' = (if tempo > 40 \<and> tempo < 300 then acc @ [round1 tempo] else acc)"
  have "\<forall>t\<in>set acc'. 0 < t" using Cons.prems(2) round1_pos by (auto simp: acc'_def)
  moreover have "\<forall>hop\<in>set hops. 0 < nat \<lfloor>real rate * hop\<rfloor>" using Cons.prems(1) by simp
  ultimately obtain raws where "fastPasses data rate hops acc' = Some raws" "\<forall>t\<in>set raws. 0 < t"
    using Cons.IH by blast
  with t show ?case by (simp add: acc'_def)
qed

lemma hopSizes_positive:
  assumes "100 \<le> rate"
  shows "\<forall>hop\<in>set hopSizes. 0 < nat \<lfloor>real rate * hop\<rfloor>"
proof
  fix hop assume "hop \<in> set hopSizes"
  then have "0.03 \<le> hop" by (auto simp: hopSizes_def)
  moreover have "100 \<le> real rate" using assms by simp
  ultimately have "100 * 0.03 \<le> real rate * hop" by (intro mult_mono) simp_all
  then have "1 \<le> real rate * hop" by simp
  then have "1 \<le> \<lfloor>real rate * hop\<rfloor>" by (simp add: le_floor_iff)
  then show "0 < nat \<lfloor>real rate * hop\<rfloor>" by simp
qed

lemma analyzeBpm_returns:
  assumes "100 \<le> sampleRate b"
  shows "\<exists>info. analyzeBpm b mode = Some (Inr info)"
proof (cases mode)
  case Fast
  from fastPasses_returns [OF hopSizes_positive [OF assms], of "[]" "getChannelData b 0"]
  obtain raws where r: "fastPasses (getChannelData b 0) (sampleRate b) hopSizes [] = Some raws"
    "\<forall>t\<in>set raws. 0 < t" by auto
  from aggregateBpm_returns [OF r(2)] obtain info where
    "aggregateBpm raws Fast [''Peak Clustering''] = Some info" by blast
  with r(1) Fast show ?thesis by (simp add: analyzeBpm_def)
next
  case Accurate
  from assms have ratio: "sampleRate b div 100 \<noteq> 0" by simp
  define bpm where "bpm = (60 * real 100) / real (bestLagOf (onsetEnvelope (getChannelData b 0) (sampleRate b div 100)))"
  have d: "detectBpmByAutocorrelation b = Inr bpm"
    using ratio by (simp add: detectBpmByAutocorrelation_def Let_def bpm_def)
  have "\<forall>t\<in>set (if bpm > 40 \<and> bpm < 250 then [bpm] else []). 0 < t" by simp
  from aggregateBpm_returns [OF this] obtain info where
    "aggregateBpm (if bpm > 40 \<and> bpm < 250 then [bpm] else []) Accurate [''Full-Track Autocorrelation''] = Some info"
    by blast
  with d Accurate show ?thesis by (simp add: analyzeBpm_def)
qed

lemma analyzeFrequency_returns:
  "0 < sampleRate b \<Longrightarrow> \<exists>fr. analyzeFrequency an name b = Inr fr"
  by (simp add: analyzeFrequency_def detectDominantFrequency_def Let_def split: option.split)

lemma hint40: "extractFrequency ''bed_40hz.wav'' = Some 40"
  by (simp add: extractFrequency_def matchAt_def isDigit_def isSpace_def parseFloat_def
      replaceUnderscore_def digitsValue_def)

text \<open>
  Claim C9, as the code has it. For a sample rate of at least 100 the analysis entrypoint
  returns metadata. The frequency analysis runs whatever the duration. The tempo estimate
  is computed when the duration is strictly below 600 seconds and skipped from 600 seconds
  on.
\<close>

theorem tempo_analysis_gate:
  assumes "100 \<le> sampleRate (decoded file)"
  shows "\<exists>md fr. analyzeFrequency an (file_name file) (decoded file) = Inr fr \<and>
           decodeFile an file mode = Some (Inr md) \<and> frequency md = fr \<and>
           (if duration (decoded file) < 600
            then \<exists>info. analyzeBpm (decoded file) mode = Some (Inr info) \<and> bpmInfo md = Some info
            else bpmInfo md = None)"
proof -
  from assms have "0 < sampleRate (decoded file)" by simp
  from analyzeFrequency_returns [OF this] obtain fr where
    fr: "analyzeFrequency an (file_name file) (decoded file) = Inr fr" by blast
  from analyzeBpm_returns [OF assms] obtain info where
    info: "analyzeBpm (decoded file) mode = Some (Inr info)" by blast
  show ?thesis using fr info by (simp add: decodeFile_def Let_def)
qed

theorem tempo_analysis_gate_witness:
  "100 \<le> sampleRate (decoded toneFile) \<and> duration (decoded toneFile) < 600 \<and>
   (\<exists>md info. decodeFile quietAnalyser toneFile Accurate = Some (Inr md) \<and>
      analyzeBpm (decoded toneFile) Accurate = Some (Inr info) \<and> bpmInfo md = Some info)"
proof -
  have d: "duration (decoded toneFile) = 2"
    by (simp add: toneFile_def tone_def duration_def buf_length_def getChannelData_def)
  have s: "sampleRate (decoded toneFile) = 8000" by (simp add: toneFile_def tone_def)
  show ?thesis
    using tempo_analysis_gate [of toneFile quietAnalyser Accurate]
    by (auto simp: d s)
qed

text \<open>
  Claim C9 as stated fails at the boundary: a signal of exactly 600 seconds gets no tempo
  estimate, while its frequency is analysed.
\<close>

theorem tempo_analysis_gate_counterexample:
  "duration (decoded tenMinutes) = 600 \<and>
   duration (decoded tenMinutes) \<le> 600 \<and>
   map_option (map_sum id bpmInfo) (decodeFile quietAnalyser tenMinutes Fast) = Some (Inr None) \<and>
   map_option (map_sum id frequency) (decodeFile quietAnalyser tenMinutes Fast) = Some (Inr (Some 40))"
  by (simp add: decodeFile_def tenMinutes_def duration_def buf_length_def getChannelData_def
      analyzeFrequency_def hint40)


section \<open>Frequency analysis: the 5 Hz threshold\<close>













section \<open>The encoder writes 16-bit PCM in a RIFF/WAVE container\<close>

lemma chain_append:
  "chain (fs @ gs) s = (case chain fs s of Inl e \<Rightarrow> Inl e | Inr s' \<Rightarrow> chain gs s')"
  by (induction fs arbitrary: s) (auto split: sum.split)

lemma put_chain:
  "offset + length (concat bss) \<le> length view \<Longrightarrow>
     chain (map put bss) (view, offset) =
       Inr (take offset view @ concat bss @ drop (offset + length (concat bss)) view,
            offset + length (concat bss))"
proof (induction bss arbitrary: view offset)
  case Nil
  then show ?case by simp
next
  case (Cons bs bss)
  define view' where "view' = take offset view @ bs @ drop (offset + length bs) view"
  from Cons.prems have fit: "offset + length bs \<le> length view"
    and rest: "(offset + length bs) + length (concat bss) \<le> length view" by simp_all
  have len: "length view' = length view" using fit by (simp add: view'_def)
  have step: "put bs (view, offset) = Inr (view', offset + length bs)"
    using fit by (simp add: put_def view'_def)
  have t: "take (offset + length bs) view' = take offset view @ bs"
    using fit by (simp add: view'_def)
  have d: "drop (offset + length bs + length (concat bss)) view' =
           drop (offset + length bs + length (concat bss)) view"
    using fit by (simp add: view'_def add.commute add.left_commute)
  from rest len have "(offset + length bs) + length (concat bss) \<le> length view'" by simp
  from Cons.IH [OF this] t d step show ?case by (simp add: add.assoc)
qed

lemma length_le16 [simp]: "length (le16 d) = 2"
  by (simp add: le16_def)

lemma length_le32 [simp]: "length (le32 d) = 4"
  by (simp add: le32_def)

lemma length_pcmPayload: "length (pcmPayload b) = buf_length b * numberOfChannels b * 2"
  by (simp add: pcmPayload_def length_concat comp_def sum_list_triv)

lemma sampleWrites_put:
  "sampleWrites b = map put
     (concat (map (\<lambda>pos. map (\<lambda>i. le16 (pcm16 (js_nth (getChannelData b i) pos)))
                           [0..<numberOfChannels b]) [0..<buf_length b]))"
  by (simp add: sampleWrites_def map_concat comp_def)

lemma concat_concat: "concat (concat xss) = concat (map concat xss)"
  by (induction xss) simp_all

lemma payload_concat:
  "concat (concat (map (\<lambda>pos. map (\<lambda>i. le16 (pcm16 (js_nth (getChannelData b i) pos)))
                           [0..<numberOfChannels b]) [0..<buf_length b])) = pcmPayload b"
  by (simp add: pcmPayload_def concat_concat comp_def)

lemma tags:
  "le32 0x46464952 = [0x52, 0x49, 0x46, 0x46]"
  "le32 0x45564157 = [0x57, 0x41, 0x56, 0x45]"
  "le32 0x20746d66 = [0x66, 0x6D, 0x74, 0x20]"
  "le32 0x61746164 = [0x64, 0x61, 0x74, 0x61]"
  by (simp_all add: le32_def)

lemma length_riffHeader: "length (riffHeader ch sr n) = 44"
  by (simp add: riffHeader_def)

lemma header_chain:
  assumes "len = buf_length b * numberOfChannels b * 2 + 44" "length view = len"
  shows "chain (headerWrites b len) (view, 0) =
           Inr (riffHeader (numberOfChannels b) (sampleRate b) (buf_length b) @ drop 44 view, 44)"
proof -
  define hs where "hs = [le32 0x46464952, le32 (of_nat (len - 8)), le32 0x45564157,
      le32 0x20746d66, le32 (of_nat 16), le16 (of_nat 1), le16 (of_nat (numberOfChannels b)),
      le32 (of_nat (sampleRate b)), le32 (of_nat (sampleRate b * 2 * numberOfChannels b)),
      le16 (of_nat (numberOfChannels b * 2)), le16 (of_nat 16), le32 0x61746164]"
  have hw: "headerWrites b len = map put hs @ [\<lambda>w. set32 (len - snd w - 4) w]"
    by (simp add: headerWrites_def hs_def set32_def set16_def Let_def)
  have l: "length (concat hs) = 40" by (simp add: hs_def)
  have fit: "0 + length (concat hs) \<le> length view" using assms by (simp add: l)
  have first: "chain (map put hs) (view, 0) = Inr (concat hs @ drop 40 view, 40)"
    using put_chain [OF fit] by (simp add: l)
  have last: "set32 (len - 40 - 4) (concat hs @ drop 40 view, 40) =
        Inr (concat hs @ le32 (of_nat (len - 44)) @ drop 44 view, 44)"
    using assms by (simp add: set32_def put_def l)
  have size: "len - 8 = buf_length b * numberOfChannels b * 2 + 36"
       "len - 44 = buf_length b * numberOfChannels b * 2"
    using assms(1) by simp_all
  have "concat hs @ le32 (of_nat (len - 44)) =
        riffHeader (numberOfChannels b) (sampleRate b) (buf_length b)"
    by (simp add: hs_def riffHeader_def tags size)
  with first last show ?thesis by (simp add: hw chain_append)
qed

lemma encoder_bytes_aux:
  "audioBufferToLossless b fmt =
     Inr \<lparr>blob_bytes = riffHeader (numberOfChannels b) (sampleRate b) (buf_length b) @ pcmPayload b,
          blob_type = (if fmt = flac_lossless then ''audio/flac'' else ''audio/wav'')\<rparr>"
proof -
  define len where "len = buf_length b * numberOfChannels b * 2 + 44"
  define hdr where "hdr = riffHeader (numberOfChannels b) (sampleRate b) (buf_length b)"
  define view :: "8 word list" where "view = hdr @ drop 44 (replicate len 0)"
  have lh: "length hdr = 44" by (simp add: hdr_def length_riffHeader)
  have h: "chain (headerWrites b len) (replicate len 0, 0) = Inr (view, 44)"
    using header_chain [of len b "replicate len 0"] by (simp add: len_def view_def hdr_def)
  have lv: "length view = len" by (simp add: view_def lh len_def)
  have lp: "length (pcmPayload b) = len - 44" by (simp add: length_pcmPayload len_def)
  have fit: "44 + length (concat (concat (map (\<lambda>pos. map (\<lambda>i. le16 (pcm16 (js_nth (getChannelData b i) pos)))
                           [0..<numberOfChannels b]) [0..<buf_length b]))) \<le> length view"
    by (simp add: payload_concat lp lv len_def)
  have s: "chain (sampleWrites b) (view, 44) = Inr (hdr @ pcmPayload b, len)"
    unfolding sampleWrites_put
    using put_chain [OF fit] lh
    by (simp add: payload_concat lp lv view_def len_def)
  show ?thesis
    using h s
    by (simp add: audioBufferToLossless_def Let_def chain_append len_def [symmetric] hdr_def)
qed

lemma pcm16_range:
  "sint (pcm16 (Some v)) =
     js_trunc (if max (- 1) (min 1 v) < 0 then max (- 1) (min 1 v) * 32768
               else max (- 1) (min 1 v) * 32767)"
proof -
  define s where "s = max (- 1) (min 1 v)"
  define scaled where "scaled = (if s < 0 then s * 32768 else s * 32767)"
  have r: "- 1 \<le> s" "s \<le> 1" by (simp_all add: s_def)
  have "- 32768 \<le> scaled" "scaled \<le> 32767" using r by (auto simp: scaled_def)
  then have b: "- 32768 \<le> js_trunc scaled" "js_trunc scaled \<le> 32767"
    by (auto simp: js_trunc_def le_floor_iff ceiling_le_iff le_ceiling_iff floor_le_iff)
  have w: "sint (word_of_int (js_trunc scaled) :: 16 word) = js_trunc scaled"
    using b by (simp add: sint_sbintrunc' signed_take_bit_int_eq_self)
  have e1: "pcm16 (Some v) = word_of_int (js_trunc scaled)"
    by (simp only: pcm16_def option.case Let_def s_def scaled_def)
  have e2: "js_trunc (if max (- 1) (min 1 v) < 0 then max (- 1) (min 1 v) * 32768
               else max (- 1) (min 1 v) * 32767) = js_trunc scaled"
    by (simp only: s_def scaled_def)
  show ?thesis unfolding e1 e2 by (rule w)
qed

text \<open>
  Claim C3. For every buffer and every export format the encoder returns, without an
  exception, the canonical 44-byte header followed by the interleaved little-endian 16-bit
  samples; the bytes do not depend on the format, which only selects the media type label.
  The header has the audio format 1 at offset 20 and the sample width 16 at offset 34. A
  sample is clamped to \<open>[-1, 1]\<close>, scaled by 32768 if negative and by 32767 otherwise, and
  stored as that number without its fraction, which fits 16 bits.
\<close>

theorem encoder_emits_pcm_wav:
  "audioBufferToLossless buffer format =
     Inr \<lparr>blob_bytes =
            riffHeader (numberOfChannels buffer) (sampleRate buffer) (buf_length buffer) @
            pcmPayload buffer,
          blob_type = (if format = flac_lossless then ''audio/flac'' else ''audio/wav'')\<rparr> \<and>
   length (riffHeader (numberOfChannels buffer) (sampleRate buffer) (buf_length buffer)) = 44 \<and>
   take 2 (drop 20 (riffHeader (numberOfChannels buffer) (sampleRate buffer) (buf_length buffer))) =
     [1, 0] \<and>
   take 2 (drop 34 (riffHeader (numberOfChannels buffer) (sampleRate buffer) (buf_length buffer))) =
     [16, 0] \<and>
   sint (pcm16 (Some v)) =
     js_trunc (if max (- 1) (min 1 v) < 0 then max (- 1) (min 1 v) * 32768
               else max (- 1) (min 1 v) * 32767)"
proof (intro conjI)
  show "audioBufferToLossless buffer format =
     Inr \<lparr>blob_bytes =
            riffHeader (numberOfChannels buffer) (sampleRate buffer) (buf_length buffer) @
            pcmPayload buffer,
          blob_type = (if format = flac_lossless then ''audio/flac'' else ''audio/wav'')\<rparr>"
    by (rule encoder_bytes_aux)
  show "length (riffHeader (numberOfChannels buffer) (sampleRate buffer) (buf_length buffer)) = 44"
    by (rule length_riffHeader)
  show "take 2 (drop 20 (riffHeader (numberOfChannels buffer) (sampleRate buffer) (buf_length buffer))) =
     [1, 0]"
    by (simp add: riffHeader_def le32_def le16_def)
  show "take 2 (drop 34 (riffHeader (numberOfChannels buffer) (sampleRate buffer) (buf_length buffer))) =
     [16, 0]"
    by (simp add: riffHeader_def le32_def le16_def)
  show "sint (pcm16 (Some v)) =
     js_trunc (if max (- 1) (min 1 v) < 0 then max (- 1) (min 1 v) * 32768
               else max (- 1) (min 1 v) * 32767)"
    by (rule pcm16_range)
qed

theorem encoder_emits_pcm_wav_witness:
  "audioBufferToLossless twoFrames mp3_high =
     Inr \<lparr>blob_bytes =
            [0x52, 0x49, 0x46, 0x46, 44, 0, 0, 0, 0x57, 0x41, 0x56, 0x45,
             0x66, 0x6D, 0x74, 0x20, 16, 0, 0, 0, 1, 0, 2, 0,
             0x40, 0x1F, 0, 0, 0x00, 0x7D, 0, 0, 4, 0, 16, 0,
             0x64, 0x61, 0x74, 0x61, 8, 0, 0, 0,
             0xFF, 0x7F, 0xFF, 0x3F, 0x00, 0x80, 0x00, 0xE0],
          blob_type = ''audio/wav''\<rparr> \<and>
   blob_bytes (projr (audioBufferToLossless twoFrames flac_lossless)) =
     blob_bytes (projr (audioBufferToLossless twoFrames mp3_high)) \<and>
   blob_type (projr (audioBufferToLossless twoFrames flac_lossless)) = ''audio/flac''"
  using encoder_emits_pcm_wav [of twoFrames mp3_high 0]
    encoder_emits_pcm_wav [of twoFrames flac_lossless 0]
  by (simp add: twoFrames_def riffHeader_def pcmPayload_def numberOfChannels_def buf_length_def
      getChannelData_def js_nth_def le16_def le32_def pcm16_def js_trunc_def upt_conv_Cons)


section \<open>Rounding to a double\<close>


lemma roundHalfEven_int [simp]: "roundHalfEven (real_of_int k) = k"
  by (simp add: roundHalfEven_def)


lemma fl64_zero [simp]: "fl64 0 = 0"
  by (simp add: fl64_def)


lemma floor_log_bounds:
  assumes "x \<noteq> 0"
  shows "2 powr real_of_int \<lfloor>log 2 \<bar>x\<bar>\<rfloor> \<le> \<bar>x\<bar>"
    and "\<bar>x\<bar> < 2 powr (real_of_int \<lfloor>log 2 \<bar>x\<bar>\<rfloor> + 1)"
proof -
  from assms have "0 < \<bar>x\<bar>" by simp
  then have "2 powr real_of_int \<lfloor>log 2 \<bar>x\<bar>\<rfloor> \<le> \<bar>x\<bar> \<and> \<bar>x\<bar> < 2 powr (real_of_int \<lfloor>log 2 \<bar>x\<bar>\<rfloor> + 1)"
    using floor_log_eq_powr_iff [of "\<bar>x\<bar>" 2 "\<lfloor>log 2 \<bar>x\<bar>\<rfloor>"] by simp
  then show "2 powr real_of_int \<lfloor>log 2 \<bar>x\<bar>\<rfloor> \<le> \<bar>x\<bar>"
    and "\<bar>x\<bar> < 2 powr (real_of_int \<lfloor>log 2 \<bar>x\<bar>\<rfloor> + 1)" by simp_all
qed



text \<open>A number with an integer significand of at most 53 bits is a double.\<close>

lemma fl64_exact:
  assumes x: "x = real_of_int m * 2 powr real_of_int e" and m: "\<bar>m\<bar> < 2 ^ 53" and e: "- 1074 \<le> e"
  shows "fl64 x = x"
proof (cases "m = 0")
  case True
  with x show ?thesis by simp
next
  case False
  then have x0: "x \<noteq> 0" using x by simp
  define E where "E = \<lfloor>log 2 \<bar>x\<bar>\<rfloor>"
  define p where "p = quantumExp x"
  have "\<bar>x\<bar> = real_of_int \<bar>m\<bar> * 2 powr real_of_int e" using x by (simp add: abs_mult)
  also have "\<dots> < 2 ^ 53 * 2 powr real_of_int e"
  proof -
    have "real_of_int \<bar>m\<bar> < 2 ^ 53" using m by (metis of_int_less_iff of_int_numeral of_int_power)
    then show ?thesis by simp
  qed
  also have "\<dots> = 2 powr (real_of_int e + 53)"
    by (simp add: powr_add powr_realpow [symmetric])
  finally have up: "\<bar>x\<bar> < 2 powr (real_of_int e + 53)" .
  have "2 powr real_of_int E < 2 powr (real_of_int e + 53)"
    using floor_log_bounds(1) [OF x0] up unfolding E_def by linarith
  then have "real_of_int E < real_of_int e + 53" by simp
  then have "E - 52 \<le> e" by linarith
  with e have pe: "p \<le> e" by (simp add: p_def quantumExp_def E_def)
  define k where "k = nat (e - p)"
  have ek: "real_of_int e = real_of_int p + real k" using pe by (simp add: k_def)
  have "x / 2 powr real_of_int p = real_of_int m * 2 powr real k"
    unfolding x ek by (simp add: powr_add)
  also have "\<dots> = real_of_int (m * 2 ^ k)" by (simp add: powr_realpow)
  finally have int: "x / 2 powr real_of_int p = real_of_int (m * 2 ^ k)" .
  have "fl64 x = real_of_int (roundHalfEven (x / 2 powr real_of_int p)) * 2 powr real_of_int p"
    using x0 by (simp add: fl64_def p_def)
  also have "\<dots> = real_of_int (m * 2 ^ k) * 2 powr real_of_int p"
    by (simp only: int roundHalfEven_int)
  also have "\<dots> = x / 2 powr real_of_int p * 2 powr real_of_int p" by (simp only: int)
  also have "\<dots> = x" by simp
  finally show ?thesis .
qed

lemma fl64_int: "\<bar>m\<bar> < 2 ^ 53 \<Longrightarrow> fl64 (real_of_int m) = real_of_int m"
  using fl64_exact [of "real_of_int m" m 0] by simp

lemma fl64_2 [simp]: "fl64 2 = 2" and fl64_1 [simp]: "fl64 1 = 1" and fl64_60 [simp]: "fl64 60 = 60"
  using fl64_int [of 2] fl64_int [of 1] fl64_int [of 60] by simp_all




section \<open>The foundation loop: termination and its precondition\<close>






lemma duration_tone: "durationSeconds tone = 2"
  by (simp add: durationSeconds_def tone_def duration_def buf_length_def getChannelData_def)








lemma timeStretch_error:
  "timeStretch b r = Some (Inl e) \<Longrightarrow> e = NotSupportedError"
  by (auto simp: timeStretch_def Let_def split: if_splits)

text \<open>
  The host's errors are live in the model. A crossfade longer than the foundation buffer
  puts the fade-out of the first copy at a negative time; boundaries that were not detected
  put the fade-out of the intro at minus the crossfade.
\<close>

lemma longer_crossfade_rejected: "renderLoopingTrack [] tone 60 1 3 = Some (Inl RangeError)"
proof -
  have m: "fl64 (- 1) = - 1" using fl64_int [of "- 1"] by simp
  have "\<not> hostAccepts (loopingNode tone 2 60 1 3 0)"
    by (simp add: hostAccepts_def loopingNode_def Let_def m)
  then show ?thesis
    unfolding renderLoopingTrack_def duration_tone
    by (subst loopingTrackFrom.simps) (simp add: Let_def)
qed

lemma undetected_boundaries_rejected:
  "renderMusicTrack ctx tone 60 1 \<lparr>introEnd = 0, outroStart = 2, detected = False\<rparr> 2 1 =
     Some (Inl RangeError)"
proof -
  have m: "fl64 (- 2) = - 2" using fl64_int [of "- 2"] by simp
  show ?thesis
    by (simp add: renderMusicTrack_def Let_def hostAccepts_def m)
qed





end
